theory Spec2Isabelle
  imports Main "HOL-Library.Word"
begin

section \<open>Pattern matcher (matcher.go)\<close>

text \<open>
  Go strings are byte sequences; \<open>string\<close> (a list of 8-bit characters) is the same
  data. The helpers below are the functions of Go's \<open>strings\<close> package that the
  matcher calls.
\<close>

definition strings_HasPrefix :: "string \<Rightarrow> string \<Rightarrow> bool" where
  "strings_HasPrefix s prefix = (length s \<ge> length prefix \<and> take (length prefix) s = prefix)"

definition strings_HasSuffix :: "string \<Rightarrow> string \<Rightarrow> bool" where
  "strings_HasSuffix s suffix =
     (length s \<ge> length suffix \<and> drop (length s - length suffix) s = suffix)"

definition strings_TrimSuffix :: "string \<Rightarrow> string \<Rightarrow> string" where
  "strings_TrimSuffix s suffix =
     (if strings_HasSuffix s suffix then take (length s - length suffix) s else s)"

definition strings_TrimRight :: "string \<Rightarrow> string \<Rightarrow> string" where
  "strings_TrimRight s cutset = rev (dropWhile (\<lambda>c. c \<in> set cutset) (rev s))"

text \<open>
  \<open>wildcardMatch\<close>: the test \<open>pattern == "*"\<close> at entry, then the \<open>for\<close> loop over the
  pattern (\<open>wildcardMatch_loop\<close>, one equation per iteration). At a star the inner loop
  \<open>for i := 0; i <= len(str); i++\<close> calls \<open>wildcardMatch\<close> on every suffix \<open>str[i:]\<close>.
\<close>

function wildcardMatch :: "string \<Rightarrow> string \<Rightarrow> bool"
  and wildcardMatch_loop :: "string \<Rightarrow> string \<Rightarrow> bool" where
  "wildcardMatch pattern str =
     (if pattern = ''*'' then True else wildcardMatch_loop pattern str)"
| "wildcardMatch_loop [] str = (length str = 0)"
| "wildcardMatch_loop (c # pattern) str =
     (if c = CHR ''*'' then
        (if length pattern = 0 then True
         else list_ex (\<lambda>i. wildcardMatch pattern (drop i str)) [0..<Suc (length str)])
      else if length str = 0 \<or> c \<noteq> hd str then False
      else wildcardMatch_loop pattern (tl str))"
  by pat_completeness auto
termination
  by (relation "measure (\<lambda>x. case x of Inl (p, s) \<Rightarrow> 2 * length p + 1
                                       | Inr (p, s) \<Rightarrow> 2 * length p)") auto

definition globMatch :: "string \<Rightarrow> string \<Rightarrow> bool" where
  "globMatch pattern val =
     (if pattern = val then True
      else if strings_HasSuffix pattern ''/*'' \<and>
              (let prefix = strings_TrimSuffix pattern ''/*''
               in val = prefix \<or> strings_HasPrefix val (prefix @ ''/''))
      then True
      else wildcardMatch pattern val)"

text \<open>
  \<open>url.Parse\<close> belongs to Go's standard library; \<open>matchURL\<close> takes it as the parameter
  \<open>url_Parse\<close>, which returns \<open>None\<close> where Go returns an error and otherwise the two
  fields of the parsed URL that the matcher reads.
\<close>

record URL =
  Host :: string
  Path :: string

definition matchURL :: "(string \<Rightarrow> URL option) \<Rightarrow> string \<Rightarrow> string \<Rightarrow> bool" where
  "matchURL url_Parse rawURL pattern =
     (case url_Parse rawURL of
        None \<Rightarrow> False
      | Some parsed \<Rightarrow>
          let hostPath = Host parsed @ Path parsed;
              hostPath' = strings_TrimRight hostPath ''/'';
              pattern' = strings_TrimRight pattern ''/''
          in globMatch pattern' hostPath')"


section \<open>Bucketing (window.go)\<close>

text \<open>
  A \<open>time.Time\<close> is modelled by the instant it denotes, as nanoseconds since the Unix
  epoch; \<open>t.UTC()\<close> does not change the instant. A \<open>time.Duration\<close> is a number of
  nanoseconds. The calendar functions of Go's \<open>time\<close> package (\<open>Year\<close>, \<open>Month\<close>,
  \<open>Day\<close>, \<open>Hour\<close>, \<open>Minute\<close>, \<open>time.Date\<close>, \<open>Format\<close>) are written out for the
  proleptic Gregorian calendar in UTC, which is what they compute.
\<close>

type_synonym Time = int
type_synonym Duration = int

definition Second :: Duration where "Second = 1000000000"
definition Minute :: Duration where "Minute = 60 * Second"
definition Hour :: Duration where "Hour = 60 * Minute"

definition time_Add :: "Time \<Rightarrow> Duration \<Rightarrow> Time" where
  "time_Add t d = t + d"

text \<open>
  Days since 1970-01-01 to (year, month, day) and back. Years are counted from
  1 March, so that the leap day comes last: a day number from 0000-03-01 is split into
  cycles of 400 years (146097 days), centuries (36524 days, at most three: the fourth
  has one day more), cycles of 4 years (1461 days) and years (365 days, at most
  three), and what is left is the day of the year. Month \<open>mp\<close> of such a year (0 for
  March) starts on day \<open>month_start mp\<close>.
\<close>

definition cycle_parts :: "int \<Rightarrow> int \<times> int \<times> int \<times> int \<times> int" where
  "cycle_parts z =
     (let n400 = z div 146097;
          d1 = z mod 146097;
          n100 = min 3 (d1 div 36524);
          d2 = d1 - 36524 * n100;
          n4 = d2 div 1461;
          d3 = d2 mod 1461;
          n1 = min 3 (d3 div 365);
          doy = d3 - 365 * n1
      in (n400, n100, n4, n1, doy))"

definition month_start :: "int \<Rightarrow> int" where
  "month_start mp = (153 * mp + 2) div 5"

definition civil_from_days :: "int \<Rightarrow> int \<times> int \<times> int" where
  "civil_from_days z0 =
     (let (n400, n100, n4, n1, doy) = cycle_parts (z0 + 719468);
          y = 400 * n400 + 100 * n100 + 4 * n4 + n1;
          mp = (5 * doy + 2) div 153;
          d = doy - month_start mp + 1;
          m = (if mp < 10 then mp + 3 else mp - 9)
      in (if m \<le> 2 then y + 1 else y, m, d))"

definition days_from_civil :: "int \<Rightarrow> int \<Rightarrow> int \<Rightarrow> int" where
  "days_from_civil y0 m d =
     (let y = (if m \<le> 2 then y0 - 1 else y0);
          mp = (if m > 2 then m - 3 else m + 9);
          doy = month_start mp + d - 1
      in 365 * y + y div 4 - y div 100 + y div 400 + doy - 719468)"

definition time_Year :: "Time \<Rightarrow> int" where
  "time_Year t = fst (civil_from_days (t div (24 * Hour)))"

definition time_Month :: "Time \<Rightarrow> int" where
  "time_Month t = fst (snd (civil_from_days (t div (24 * Hour))))"

definition time_Day :: "Time \<Rightarrow> int" where
  "time_Day t = snd (snd (civil_from_days (t div (24 * Hour))))"

definition time_Hour :: "Time \<Rightarrow> int" where
  "time_Hour t = (t mod (24 * Hour)) div Hour"

definition time_Minute :: "Time \<Rightarrow> int" where
  "time_Minute t = (t mod Hour) div Minute"

text \<open>
  \<open>time.Date(year, month, day, hour, min, sec, nsec, time.UTC)\<close>. The limiter only
  passes it a month in 1..12 and a day of that month, so Go's normalisation of
  out-of-range months and days is never used.
\<close>

definition time_Date :: "int \<Rightarrow> int \<Rightarrow> int \<Rightarrow> int \<Rightarrow> int \<Rightarrow> int \<Rightarrow> int \<Rightarrow> Time" where
  "time_Date year month day hour minute sec nsec =
     days_from_civil year month day * (24 * Hour) + hour * Hour + minute * Minute
       + sec * Second + nsec"

text \<open>
  \<open>Format\<close> writes each numeric field with \<open>appendInt\<close>: a minus sign for a negative
  value, then the decimal digits padded with zeros to the field's width.
\<close>

fun decimal :: "nat \<Rightarrow> string" where
  "decimal n = (if n < 10 then [char_of (48 + n)]
                else decimal (n div 10) @ [char_of (48 + n mod 10)])"

declare decimal.simps [simp del]

definition appendInt :: "int \<Rightarrow> nat \<Rightarrow> string" where
  "appendInt x width =
     (let ds = decimal (nat \<bar>x\<bar>)
      in (if x < 0 then ''-'' else []) @ replicate (width - length ds) (CHR ''0'') @ ds)"

definition Format_month :: "Time \<Rightarrow> string" where \<comment> \<open>layout \<open>2006-01\<close>\<close>
  "Format_month t = appendInt (time_Year t) 4 @ ''-'' @ appendInt (time_Month t) 2"

definition Format_day :: "Time \<Rightarrow> string" where \<comment> \<open>layout \<open>2006-01-02\<close>\<close>
  "Format_day t = Format_month t @ ''-'' @ appendInt (time_Day t) 2"

definition Format_hour :: "Time \<Rightarrow> string" where \<comment> \<open>layout \<open>2006-01-02T15\<close>\<close>
  "Format_hour t = Format_day t @ ''T'' @ appendInt (time_Hour t) 2"

definition Format_minute :: "Time \<Rightarrow> string" where \<comment> \<open>layout \<open>2006-01-02T15:04\<close>\<close>
  "Format_minute t = Format_hour t @ '':'' @ appendInt (time_Minute t) 2"

text \<open>\<open>type Window int\<close> with the four constants numbered by \<open>iota\<close>.\<close>

type_synonym Window = int

definition PerMinute :: Window where "PerMinute = 0"
definition PerHour :: Window where "PerHour = 1"
definition PerDay :: Window where "PerDay = 2"
definition PerMonth :: Window where "PerMonth = 3"

definition Window_Duration :: "Window \<Rightarrow> Duration" where
  "Window_Duration w =
     (if w = PerMinute then Minute
      else if w = PerHour then Hour
      else if w = PerDay then 24 * Hour
      else if w = PerMonth then 30 * 24 * Hour
      else Hour)"

definition Window_BucketKey :: "Window \<Rightarrow> Time \<Rightarrow> string" where
  "Window_BucketKey w t =
     (if w = PerMinute then Format_minute t
      else if w = PerHour then Format_hour t
      else if w = PerDay then Format_day t
      else if w = PerMonth then Format_month t
      else Format_hour t)"

definition Window_BucketStart :: "Window \<Rightarrow> Time \<Rightarrow> Time" where
  "Window_BucketStart w t =
     (if w = PerMinute then
        time_Date (time_Year t) (time_Month t) (time_Day t) (time_Hour t) (time_Minute t) 0 0
      else if w = PerHour then
        time_Date (time_Year t) (time_Month t) (time_Day t) (time_Hour t) 0 0 0
      else if w = PerDay then
        time_Date (time_Year t) (time_Month t) (time_Day t) 0 0 0 0
      else if w = PerMonth then
        time_Date (time_Year t) (time_Month t) 1 0 0 0 0
      else time_Date (time_Year t) (time_Month t) (time_Day t) (time_Hour t) 0 0 0)"


section \<open>Resources, strategies and errors (resource.go, strategy.go, erl.go)\<close>

text \<open>
  \<open>int64\<close> is a 64-bit word: \<open>+\<close> wraps around as Go's does, and \<open>sint\<close> reads the
  signed value that Go's comparisons use.
\<close>

type_synonym int64 = "64 word"

text \<open>\<open>type Strategy int\<close>: any integer is a value of the type, three of them are named.\<close>

type_synonym Strategy = int

definition Block :: Strategy where "Block = 0"
definition BlockWithQueue :: Strategy where "BlockWithQueue = 1"
definition LogOnly :: Strategy where "LogOnly = 2"

record Resource =
  Name :: string
  Pattern :: string
  Limit :: int64
  Window :: Window
  Strategy :: Strategy

record LimitExceededError =
  Resource :: Resource
  Current :: int64
  resetAt :: Time

text \<open>
  Error values: the sentinel \<open>ErrLimitExceeded\<close>, a \<open>*LimitExceededError\<close>, an error
  built by \<open>fmt.Errorf\<close> with \<open>%w\<close> (its message prefix and the error it wraps), and an
  error raised by a backend (database driver, Redis client, cancelled context).
\<close>

datatype error =
    ErrLimitExceeded
  | LimitExceeded LimitExceededError
  | Errorf string error
  | BackendError string

fun Unwrap :: "error \<Rightarrow> error option" where
  "Unwrap (LimitExceeded e) = Some ErrLimitExceeded"
| "Unwrap (Errorf msg e) = Some e"
| "Unwrap ErrLimitExceeded = None"
| "Unwrap (BackendError msg) = None"

text \<open>
  \<open>errors.Is\<close>: walk the \<open>Unwrap\<close> chain until an error equal to the target is found.
\<close>

fun chain_length :: "error \<Rightarrow> nat" where
  "chain_length (LimitExceeded e) = 1"
| "chain_length (Errorf msg e) = Suc (chain_length e)"
| "chain_length ErrLimitExceeded = 0"
| "chain_length (BackendError msg) = 0"

function errors_Is :: "error \<Rightarrow> error \<Rightarrow> bool" where
  "errors_Is err target =
     (if err = target then True
      else case Unwrap err of None \<Rightarrow> False | Some err' \<Rightarrow> errors_Is err' target)"
  by pat_completeness auto
termination
proof (relation "measure (\<lambda>(err, target). chain_length err)")
  show "wf (measure (\<lambda>(err, target). chain_length err))" by simp
next
  fix err target :: error and err'
  assume "Unwrap err = Some err'"
  then show "((err', target), (err, target)) \<in> measure (\<lambda>(err, target). chain_length err)"
    by (cases err) auto
qed

declare errors_Is.simps [simp del]


section \<open>Counter stores (store/store.go, memory.go, sqlite.go, redis/redis.go, tiered.go)\<close>

record store_Window =
  Duration :: Duration
  BucketKey :: string
  BucketStart :: Time

text \<open>
  The \<open>Store\<close> interface is a table of methods over the backend's state \<open>'s\<close>. A Go
  result \<open>(int64, error)\<close> is the pair of the count and the error (\<open>None\<close> for \<open>nil\<close>);
  every method also returns the backend's state after the call.
\<close>

record 's Store =
  Increment :: "'s \<Rightarrow> string \<Rightarrow> store_Window \<Rightarrow> (int64 \<times> error option) \<times> 's"
  Get :: "'s \<Rightarrow> string \<Rightarrow> store_Window \<Rightarrow> (int64 \<times> error option) \<times> 's"
  Reset :: "'s \<Rightarrow> string \<Rightarrow> error option \<times> 's"
  Close :: "'s \<Rightarrow> error option \<times> 's"

subsection \<open>Memory store\<close>

record bucket =
  count :: int64
  bucketKey :: string

record MemoryStore =
  buckets :: "string \<rightharpoonup> bucket"

definition NewMemoryStore :: MemoryStore where
  "NewMemoryStore = \<lparr>buckets = Map.empty\<rparr>"

definition MemoryStore_Increment ::
  "MemoryStore \<Rightarrow> string \<Rightarrow> store_Window \<Rightarrow> (int64 \<times> error option) \<times> MemoryStore" where
  "MemoryStore_Increment m key w =
     (let b = (case buckets m key of
                 None \<Rightarrow> \<lparr>count = 0, bucketKey = BucketKey w\<rparr>
               | Some b \<Rightarrow>
                   if bucketKey b \<noteq> BucketKey w
                   then \<lparr>count = 0, bucketKey = BucketKey w\<rparr> else b);
          b' = b\<lparr>count := count b + 1\<rparr>
      in ((count b', None), m\<lparr>buckets := (buckets m)(key \<mapsto> b')\<rparr>))"

definition MemoryStore_Get ::
  "MemoryStore \<Rightarrow> string \<Rightarrow> store_Window \<Rightarrow> (int64 \<times> error option) \<times> MemoryStore" where
  "MemoryStore_Get m key w =
     (case buckets m key of
        None \<Rightarrow> ((0, None), m)
      | Some b \<Rightarrow>
          if bucketKey b \<noteq> BucketKey w then ((0, None), m) else ((count b, None), m))"

definition MemoryStore_Reset :: "MemoryStore \<Rightarrow> string \<Rightarrow> error option \<times> MemoryStore" where
  "MemoryStore_Reset m key = (None, m\<lparr>buckets := (buckets m)(key := None)\<rparr>)"

definition MemoryStore_Close :: "MemoryStore \<Rightarrow> error option \<times> MemoryStore" where
  "MemoryStore_Close m = (None, m)"

definition MemoryStore_Store :: "MemoryStore Store" where
  "MemoryStore_Store =
     \<lparr>Increment = MemoryStore_Increment, Get = MemoryStore_Get,
      Reset = MemoryStore_Reset, Close = MemoryStore_Close\<rparr>"


subsection \<open>The window in seconds\<close>

text \<open>
  \<open>int64(w.Duration.Seconds())\<close>. \<open>Seconds\<close> computes
  \<open>float64(d / Second) + float64(d % Second) / 1e9\<close> in \<open>float64\<close> arithmetic, and the
  conversion to \<open>int64\<close> drops the fraction. A \<open>float64\<close> value is modelled by a
  fraction that denotes it, a numerator over a positive denominator. \<open>float64 p q\<close> is
  the value nearest to \<open>p / q\<close> among those with a significand of 53 binary digits, the
  one with the even significand on a tie: the conversion of an integer to \<open>float64\<close>
  gives such a value, and so does every arithmetic operation, from its exact result.
  (The limits of the exponent are far from what an \<open>int64\<close> can reach.)
\<close>

function bit_length :: "int \<Rightarrow> nat" where
  "bit_length n = (if n \<le> 0 then 0 else Suc (bit_length (n div 2)))"
  by auto
termination
  by (relation "measure nat") auto

declare bit_length.simps [simp del]

definition round_half_even :: "int \<Rightarrow> int \<Rightarrow> int" where
  "round_half_even p q =
     (let f = p div q; r = p mod q
      in if 2 * r < q then f
         else if 2 * r > q then f + 1
         else if even f then f else f + 1)"

text \<open>The exponent \<open>e\<close> with \<open>2 ^ e \<le> p / q < 2 ^ (e + 1)\<close>, for positive \<open>p\<close> and \<open>q\<close>.\<close>

definition floor_log2 :: "int \<Rightarrow> int \<Rightarrow> int" where
  "floor_log2 p q =
     (let e = int (bit_length p) - int (bit_length q)
      in if (if 0 \<le> e then q * 2 ^ nat e \<le> p else q \<le> p * 2 ^ nat (- e)) then e else e - 1)"

definition float64 :: "int \<Rightarrow> int \<Rightarrow> int \<times> int" where
  "float64 p q =
     (if p = 0 then (0, 1)
      else (let s = floor_log2 \<bar>p\<bar> q - 52 \<comment> \<open>the exponent of the last digit\<close>
            in if 0 \<le> s then (round_half_even p (q * 2 ^ nat s) * 2 ^ nat s, 1)
               else (round_half_even (p * 2 ^ nat (- s)) q, 2 ^ nat (- s))))"

text \<open>The conversion of a \<open>float64\<close> to an integer type drops the fraction.\<close>

definition float64_truncate :: "int \<times> int \<Rightarrow> int" where
  "float64_truncate x = (case x of (n, d) \<Rightarrow> sgn n * (\<bar>n\<bar> div d))"

definition Duration_Seconds :: "Duration \<Rightarrow> int" where
  "Duration_Seconds d =
     (let sec = sgn d * (\<bar>d\<bar> div Second); \<comment> \<open>\<open>d / Second\<close>\<close>
          nsec = sgn d * (\<bar>d\<bar> mod Second); \<comment> \<open>\<open>d % Second\<close>\<close>
          (sn, sd) = float64 sec 1;
          (nn, nd) = float64 nsec 1;
          (fn, fd) = float64 nn (nd * Second); \<comment> \<open>\<open>float64(nsec) / 1e9\<close>\<close>
          sum = float64 (sn * fd + fn * sd) (sd * fd)
      in float64_truncate sum)"


subsection \<open>SQLite store\<close>

text \<open>
  The table \<open>erl_counters\<close> maps the primary key to the other three columns. Calls into
  the database can fail (I/O, a cancelled context): \<open>sql_faults\<close> is the script of what
  the coming database calls do, one entry per call, \<open>Some e\<close> for a call that fails with
  \<open>e\<close>; calls beyond the script succeed. A transaction that is not committed leaves the
  table as it was.
\<close>

record row =
  row_count :: int64
  bucket_key :: string
  window_seconds :: int

record SQLiteStore =
  rows :: "string \<rightharpoonup> row"
  sql_faults :: "error option list"

definition db_call :: "SQLiteStore \<Rightarrow> error option \<times> SQLiteStore" where
  "db_call s = (case sql_faults s of [] \<Rightarrow> (None, s) | f # fs \<Rightarrow> (f, s\<lparr>sql_faults := fs\<rparr>))"

definition SQLiteStore_Increment ::
  "SQLiteStore \<Rightarrow> string \<Rightarrow> store_Window \<Rightarrow> (int64 \<times> error option) \<times> SQLiteStore" where
  "SQLiteStore_Increment s key w =
     (let (err, s1) = db_call s \<comment> \<open>\<open>BeginTx\<close>\<close>
      in (case err of
            Some e \<Rightarrow> ((0, Some e), s1)
          | None \<Rightarrow>
      (let (err, s2) = db_call s1 \<comment> \<open>\<open>SELECT count, bucket_key ... Scan\<close>\<close>
       in (case err of
             Some e \<Rightarrow> ((0, Some e), s2)
           | None \<Rightarrow>
      (case rows s2 key of
         None \<Rightarrow> \<comment> \<open>\<open>sql.ErrNoRows\<close>: new key, insert\<close>
           (let (err, s3) = db_call s2 \<comment> \<open>\<open>INSERT\<close>\<close>
            in (case err of
                  Some e \<Rightarrow> ((0, Some e), s3)
                | None \<Rightarrow>
            (let (err, s4) = db_call s3 \<comment> \<open>\<open>Commit\<close>\<close>
             in (case err of
                   Some e \<Rightarrow> ((1, Some e), s4)
                 | None \<Rightarrow>
                     (let inserted = \<lparr>row_count = 1, bucket_key = BucketKey w,
                                      window_seconds = Duration_Seconds (Duration w)\<rparr>
                      in ((1, None), s4\<lparr>rows := (rows s4)(key \<mapsto> inserted)\<rparr>))))))
       | Some r \<Rightarrow>
           (let count0 = (if bucket_key r \<noteq> BucketKey w then 0 else row_count r);
                count1 = count0 + 1;
                (err, s3) = db_call s2 \<comment> \<open>\<open>UPDATE\<close>\<close>
            in (case err of
                  Some e \<Rightarrow> ((0, Some e), s3)
                | None \<Rightarrow>
            (let (err, s4) = db_call s3 \<comment> \<open>\<open>Commit\<close>\<close>
             in (case err of
                   Some e \<Rightarrow> ((count1, Some e), s4)
                 | None \<Rightarrow>
                     (let updated = \<lparr>row_count = count1, bucket_key = BucketKey w,
                                     window_seconds = Duration_Seconds (Duration w)\<rparr>
                      in ((count1, None), s4\<lparr>rows := (rows s4)(key \<mapsto> updated)\<rparr>)))))))))))"

definition SQLiteStore_Get ::
  "SQLiteStore \<Rightarrow> string \<Rightarrow> store_Window \<Rightarrow> (int64 \<times> error option) \<times> SQLiteStore" where
  "SQLiteStore_Get s key w =
     (let (err, s1) = db_call s \<comment> \<open>\<open>SELECT count, bucket_key ... Scan\<close>\<close>
      in case err of
           Some e \<Rightarrow> ((0, Some e), s1)
         | None \<Rightarrow>
      (case rows s1 key of
         None \<Rightarrow> ((0, None), s1) \<comment> \<open>\<open>sql.ErrNoRows\<close>\<close>
       | Some r \<Rightarrow>
           if bucket_key r \<noteq> BucketKey w then ((0, None), s1)
           else ((row_count r, None), s1)))"

definition SQLiteStore_Reset :: "SQLiteStore \<Rightarrow> string \<Rightarrow> error option \<times> SQLiteStore" where
  "SQLiteStore_Reset s key =
     (let (err, s1) = db_call s \<comment> \<open>\<open>DELETE\<close>\<close>
      in case err of
           Some e \<Rightarrow> (Some e, s1)
         | None \<Rightarrow> (None, s1\<lparr>rows := (rows s1)(key := None)\<rparr>))"

definition SQLiteStore_Close :: "SQLiteStore \<Rightarrow> error option \<times> SQLiteStore" where
  "SQLiteStore_Close s = db_call s"

definition SQLiteStore_Store :: "SQLiteStore Store" where
  "SQLiteStore_Store =
     \<lparr>Increment = SQLiteStore_Increment, Get = SQLiteStore_Get,
      Reset = SQLiteStore_Reset, Close = SQLiteStore_Close\<rparr>"

subsection \<open>Redis store\<close>

text \<open>
  Each counter is a Redis hash under the key \<open>erl:<name>\<close> with the fields \<open>count\<close>
  and \<open>bucket_key\<close>, written only by the script below, so the \<open>count\<close> field always
  holds the decimal text of a 64-bit integer and is modelled by that integer.
  \<open>hash_expire_at\<close> is the expiry of the key, when \<open>EXPIRE\<close> has set one: the instant
  of the server's clock, in milliseconds, after which the server treats the key as
  missing. \<open>redis_clock\<close> is the server's clock. \<open>redis_calls\<close> scripts what the coming
  calls to the server meet, one entry per call: the milliseconds that pass on the
  server's clock before the call arrives, and \<open>Some e\<close> for a call that fails with
  \<open>e\<close>; calls beyond the script arrive at once and succeed.
\<close>

record redis_hash =
  hash_count :: int64
  hash_bucket_key :: string
  hash_expire_at :: "int option"

record RedisStore =
  hashes :: "string \<rightharpoonup> redis_hash"
  redis_clock :: int
  redis_calls :: "(nat \<times> error option) list"

definition redis_call :: "RedisStore \<Rightarrow> error option \<times> RedisStore" where
  "redis_call s =
     (case redis_calls s of
        [] \<Rightarrow> (None, s)
      | (wait, f) # cs \<Rightarrow> (f, s\<lparr>redis_clock := redis_clock s + int wait, redis_calls := cs\<rparr>))"

text \<open>The hash that the server finds under a key at the time \<open>now\<close>.\<close>

definition redis_lookup :: "(string \<rightharpoonup> redis_hash) \<Rightarrow> int \<Rightarrow> string \<Rightarrow> redis_hash option" where
  "redis_lookup db now key =
     (case db key of
        None \<Rightarrow> None
      | Some h \<Rightarrow>
          (case hash_expire_at h of
             None \<Rightarrow> Some h
           | Some t \<Rightarrow> if now > t then None else Some h))"

definition redisKey :: "string \<Rightarrow> string" where
  "redisKey key = ''erl:'' @ key"

definition MaxInt64 :: int64 where
  "MaxInt64 = 9223372036854775807"

text \<open>
  The reply of \<open>HINCRBY\<close> reaches the script as a Lua number, a \<open>float64\<close>, and the
  number that the script returns becomes an integer reply again by the conversion to
  a 64-bit integer, which \<open>.Int64()\<close> reads. (The \<open>float64\<close> nearest to a count within
  512 of the largest \<open>int64\<close> is \<open>2 ^ 63\<close>, which no 64-bit integer holds; the
  conversion is taken to give the least 64-bit integer there, as it does on x86-64.)
\<close>

definition lua_number_reply :: "int64 \<Rightarrow> int64" where
  "lua_number_reply c = word_of_int (float64_truncate (float64 (sint c) 1))"

text \<open>
  The script, run at the server time \<open>now\<close>. \<open>HINCRBY\<close> fails when the sum leaves the
  signed 64-bit range. \<open>HSET\<close> on a key that exists keeps its expiry.
\<close>

definition incrementScript ::
  "(string \<rightharpoonup> redis_hash) \<Rightarrow> int \<Rightarrow> string \<Rightarrow> string \<Rightarrow> int
     \<Rightarrow> (error + int64) \<times> (string \<rightharpoonup> redis_hash)" where
  "incrementScript db now key bkey ttl =
     (let found = redis_lookup db now key;
          reset = \<lparr>hash_count = 1, hash_bucket_key = bkey,
                   hash_expire_at = (if ttl > 0 then Some (now + ttl * 1000)
                                     else Option.bind found hash_expire_at)\<rparr>
      in case found of
           None \<Rightarrow> (Inr 1, db(key \<mapsto> reset)) \<comment> \<open>\<open>HGET\<close> gives nil: \<open>HSET\<close>, \<open>EXPIRE\<close>\<close>
         | Some h \<Rightarrow>
             if hash_bucket_key h \<noteq> bkey then (Inr 1, db(key \<mapsto> reset))
             else if hash_count h = MaxInt64 \<comment> \<open>\<open>HINCRBY key count 1\<close>\<close>
             then (Inl (BackendError ''ERR increment or decrement would overflow''), db)
             else (Inr (lua_number_reply (hash_count h + 1)),
                   db(key \<mapsto> h\<lparr>hash_count := hash_count h + 1\<rparr>)))"

definition RedisStore_Increment ::
  "RedisStore \<Rightarrow> string \<Rightarrow> store_Window \<Rightarrow> (int64 \<times> error option) \<times> RedisStore" where
  "RedisStore_Increment s key w =
     (let ttl = Duration_Seconds (Duration w);
          (err, s1) = redis_call s
      in case err of
           Some e \<Rightarrow> ((0, Some (Errorf ''erl/store/redis: increment: '' e)), s1)
         | None \<Rightarrow>
             (case incrementScript (hashes s1) (redis_clock s1) (redisKey key) (BucketKey w) ttl of
                (Inl e, db) \<Rightarrow> ((0, Some (Errorf ''erl/store/redis: increment: '' e)), s1)
              | (Inr result, db) \<Rightarrow> ((result, None), s1\<lparr>hashes := db\<rparr>)))"

definition RedisStore_Get ::
  "RedisStore \<Rightarrow> string \<Rightarrow> store_Window \<Rightarrow> (int64 \<times> error option) \<times> RedisStore" where
  "RedisStore_Get s key w =
     (let (err, s1) = redis_call s \<comment> \<open>\<open>HGETALL\<close>\<close>
      in case err of
           Some e \<Rightarrow> ((0, Some (Errorf ''erl/store/redis: get: '' e)), s1)
         | None \<Rightarrow>
             (case redis_lookup (hashes s1) (redis_clock s1) (redisKey key) of
                None \<Rightarrow> ((0, None), s1)
              | Some h \<Rightarrow>
                  if hash_bucket_key h \<noteq> BucketKey w then ((0, None), s1)
                  else ((hash_count h, None), s1)))"

definition RedisStore_Reset :: "RedisStore \<Rightarrow> string \<Rightarrow> error option \<times> RedisStore" where
  "RedisStore_Reset s key =
     (let (err, s1) = redis_call s \<comment> \<open>\<open>DEL\<close>\<close>
      in case err of
           Some e \<Rightarrow> (Some e, s1)
         | None \<Rightarrow> (None, s1\<lparr>hashes := (hashes s1)(redisKey key := None)\<rparr>))"

definition RedisStore_Close :: "RedisStore \<Rightarrow> error option \<times> RedisStore" where
  "RedisStore_Close s = redis_call s"

definition RedisStore_Store :: "RedisStore Store" where
  "RedisStore_Store =
     \<lparr>Increment = RedisStore_Increment, Get = RedisStore_Get,
      Reset = RedisStore_Reset, Close = RedisStore_Close\<rparr>"

subsection \<open>Tiered store\<close>

text \<open>
  A \<open>TieredStore\<close> owns a \<open>MemoryStore\<close> and holds the persistent backend through the
  \<open>Store\<close> interface: its methods are the parameter \<open>P\<close>, its state the field
  \<open>persistent\<close>.
\<close>

record 's TieredStore =
  memory :: MemoryStore
  persistent :: 's

definition NewTieredStore :: "'s \<Rightarrow> 's TieredStore" where
  "NewTieredStore p = \<lparr>memory = NewMemoryStore, persistent = p\<rparr>"

definition TieredStore_Increment ::
  "'s Store \<Rightarrow> 's TieredStore \<Rightarrow> string \<Rightarrow> store_Window
     \<Rightarrow> (int64 \<times> error option) \<times> 's TieredStore" where
  "TieredStore_Increment P t key w =
     (let ((cnt, err), p') = Increment P (persistent t) key w;
          t1 = t\<lparr>persistent := p'\<rparr>
      in case err of
           Some e \<Rightarrow> ((0, Some e), t1)
         | None \<Rightarrow>
             let (ignored, m') = MemoryStore_Increment (memory t1) key w
             in ((cnt, None), t1\<lparr>memory := m'\<rparr>))"

definition TieredStore_Get ::
  "'s Store \<Rightarrow> 's TieredStore \<Rightarrow> string \<Rightarrow> store_Window
     \<Rightarrow> (int64 \<times> error option) \<times> 's TieredStore" where
  "TieredStore_Get P t key w =
     (let ((cnt, err), m') = MemoryStore_Get (memory t) key w;
          t1 = t\<lparr>memory := m'\<rparr>
      in (case err of
            Some e \<Rightarrow> ((0, Some e), t1)
          | None \<Rightarrow>
      if sint cnt > 0 then ((cnt, None), t1)
      else \<comment> \<open>memory miss: read from the persistent backend\<close>
        (let ((cnt, err), p') = Get P (persistent t1) key w;
             t2 = t1\<lparr>persistent := p'\<rparr>
         in (case err of
               Some e \<Rightarrow> ((0, Some e), t2)
             | None \<Rightarrow>
         if sint cnt > 0 then \<comment> \<open>backfill memory\<close>
           (let b = \<lparr>count = cnt, bucketKey = BucketKey w\<rparr>
            in ((cnt, None),
                t2\<lparr>memory := (memory t2)\<lparr>buckets := (buckets (memory t2))(key \<mapsto> b)\<rparr>\<rparr>))
         else ((cnt, None), t2)))))"

definition TieredStore_Reset ::
  "'s Store \<Rightarrow> 's TieredStore \<Rightarrow> string \<Rightarrow> error option \<times> 's TieredStore" where
  "TieredStore_Reset P t key =
     (let (ignored, m') = MemoryStore_Reset (memory t) key;
          (err, p') = Reset P (persistent t) key
      in (err, t\<lparr>memory := m', persistent := p'\<rparr>))"

definition TieredStore_Close :: "'s Store \<Rightarrow> 's TieredStore \<Rightarrow> error option \<times> 's TieredStore" where
  "TieredStore_Close P t = (let (err, p') = Close P (persistent t) in (err, t\<lparr>persistent := p'\<rparr>))"

definition TieredStore_Store :: "'s Store \<Rightarrow> 's TieredStore Store" where
  "TieredStore_Store P =
     \<lparr>Increment = TieredStore_Increment P, Get = TieredStore_Get P,
      Reset = TieredStore_Reset P, Close = TieredStore_Close P\<rparr>"


section \<open>Limiter (erl.go)\<close>

text \<open>
  The limiter holds its store through the \<open>Store\<close> interface (methods \<open>store_impl\<close>,
  state \<open>store\<close>). The callback \<open>onLimitReached\<close> runs in the caller's context; what it
  does is a change of the caller's state \<open>'u\<close>, which \<open>Check\<close> threads through.
  \<open>time.Now()\<close> is the parameter \<open>now\<close>.
\<close>

record ('s, 'u) Limiter =
  resources :: "Resource list"
  store_impl :: "'s Store"
  store :: 's
  onLimitReached :: "(Resource \<Rightarrow> int64 \<Rightarrow> 'u \<Rightarrow> 'u) option"

definition New :: "(Resource \<Rightarrow> int64 \<Rightarrow> 'u \<Rightarrow> 'u) option \<Rightarrow> (MemoryStore, 'u) Limiter" where
  \<comment> \<open>no \<open>WithStore\<close> option: the store is a new memory store\<close>
  "New cb = \<lparr>resources = [], store_impl = MemoryStore_Store, store = NewMemoryStore,
             onLimitReached = cb\<rparr>"

definition New_WithStore ::
  "'s Store \<Rightarrow> 's \<Rightarrow> (Resource \<Rightarrow> int64 \<Rightarrow> 'u \<Rightarrow> 'u) option \<Rightarrow> ('s, 'u) Limiter" where
  "New_WithStore impl s cb =
     \<lparr>resources = [], store_impl = impl, store = s, onLimitReached = cb\<rparr>"

definition Register :: "('s, 'u) Limiter \<Rightarrow> Resource \<Rightarrow> ('s, 'u) Limiter" where
  "Register l r = l\<lparr>resources := resources l @ [r]\<rparr>"

definition window_of :: "Resource \<Rightarrow> Time \<Rightarrow> store_Window" where
  "window_of r now =
     \<lparr>Duration = Window_Duration (Window r),
      BucketKey = Window_BucketKey (Window r) now,
      BucketStart = Window_BucketStart (Window r) now\<rparr>"

text \<open>
  The body of the loop of \<open>Check\<close> for a resource whose pattern matched: it always
  returns. A strategy that is none of the three cases of the \<open>switch\<close> falls through
  to the final \<open>return nil\<close>.
\<close>

definition Check_matched ::
  "('s, 'u) Limiter \<Rightarrow> Resource \<Rightarrow> Time \<Rightarrow> 'u \<Rightarrow> error option \<times> ('s, 'u) Limiter \<times> 'u" where
  "Check_matched l r now u =
     (let w = window_of r now;
          ((current, err), s') = Increment (store_impl l) (store l) (Name r) w;
          l' = l\<lparr>store := s'\<rparr>
      in case err of
           Some e \<Rightarrow> (Some (Errorf ''erl: store error: '' e), l', u)
         | None \<Rightarrow>
      if sint current > sint (Limit r) then
        (let u' = (case onLimitReached l of None \<Rightarrow> u | Some f \<Rightarrow> f r current u)
         in if Strategy r = Block then
              (Some (LimitExceeded \<lparr>Resource = r, Current = current,
                                    resetAt = time_Add (BucketStart w) (Duration w)\<rparr>), l', u')
            else if Strategy r = BlockWithQueue then
              (Some (LimitExceeded \<lparr>Resource = r, Current = current,
                                    resetAt = time_Add (BucketStart w) (Duration w)\<rparr>), l', u')
            else if Strategy r = LogOnly then (None, l', u')
            else (None, l', u'))
      else (None, l', u))"

fun Check_loop ::
  "(string \<Rightarrow> URL option) \<Rightarrow> ('s, 'u) Limiter \<Rightarrow> Resource list \<Rightarrow> string \<Rightarrow> Time \<Rightarrow> 'u
     \<Rightarrow> error option \<times> ('s, 'u) Limiter \<times> 'u" where
  "Check_loop url_Parse l [] rawURL now u = (None, l, u)"
| "Check_loop url_Parse l (r # rs) rawURL now u =
     (if \<not> matchURL url_Parse rawURL (Pattern r) then Check_loop url_Parse l rs rawURL now u
      else Check_matched l r now u)"

definition Check ::
  "(string \<Rightarrow> URL option) \<Rightarrow> ('s, 'u) Limiter \<Rightarrow> string \<Rightarrow> Time \<Rightarrow> 'u
     \<Rightarrow> error option \<times> ('s, 'u) Limiter \<times> 'u" where
  "Check url_Parse l rawURL now u = Check_loop url_Parse l (resources l) rawURL now u"


section \<open>Notions used to state the properties\<close>

text \<open>
  The counter entry a backend stores for a key, as the pair (count, bucket key), and
  the count that the store contract asks \<open>Increment\<close> to return for it: 1 when there is
  no entry or the entry belongs to another bucket, the stored count plus 1 otherwise.
\<close>

definition MemoryStore_entry :: "MemoryStore \<Rightarrow> string \<Rightarrow> (int64 \<times> string) option" where
  "MemoryStore_entry m key = map_option (\<lambda>b. (count b, bucketKey b)) (buckets m key)"

definition SQLiteStore_entry :: "SQLiteStore \<Rightarrow> string \<Rightarrow> (int64 \<times> string) option" where
  "SQLiteStore_entry s key = map_option (\<lambda>r. (row_count r, bucket_key r)) (rows s key)"

text \<open>
  For Redis, the entry that the coming call to the server finds for the key (none when
  the key has expired by then), and the entry that the server holds at its present
  time.
\<close>

definition RedisStore_entry :: "RedisStore \<Rightarrow> string \<Rightarrow> (int64 \<times> string) option" where
  "RedisStore_entry s key =
     map_option (\<lambda>h. (hash_count h, hash_bucket_key h))
       (redis_lookup (hashes s) (redis_clock (snd (redis_call s))) (redisKey key))"

definition RedisStore_held :: "RedisStore \<Rightarrow> string \<Rightarrow> (int64 \<times> string) option" where
  "RedisStore_held s key =
     map_option (\<lambda>h. (hash_count h, hash_bucket_key h))
       (redis_lookup (hashes s) (redis_clock s) (redisKey key))"


definition next_count :: "(int64 \<times> string) option \<Rightarrow> store_Window \<Rightarrow> int64" where
  "next_count stored w =
     (case stored of
        None \<Rightarrow> 1
      | Some (c, bk) \<Rightarrow> if bk \<noteq> BucketKey w then 1 else c + 1)"

text \<open>
  The count that the store contract asks \<open>Get\<close> to return for a stored entry: the
  stored count when the entry belongs to the window's bucket, 0 otherwise.
\<close>

definition stored_count :: "(int64 \<times> string) option \<Rightarrow> store_Window \<Rightarrow> int64" where
  "stored_count stored w =
     (case stored of
        None \<Rightarrow> 0
      | Some (c, bk) \<Rightarrow> if bk = BucketKey w then c else 0)"

text \<open>The results of incrementing one key once for each window of a list, in order.\<close>

fun Increment_seq ::
  "'s Store \<Rightarrow> 's \<Rightarrow> string \<Rightarrow> store_Window list \<Rightarrow> (int64 \<times> error option) list" where
  "Increment_seq P s key [] = []"
| "Increment_seq P s key (w # ws) =
     (let (res, s') = Increment P s key w in res # Increment_seq P s' key ws)"

text \<open>The two windows of the rollover tests, one minute apart.\<close>

definition test_window_1 :: store_Window where
  "test_window_1 =
     \<lparr>Duration = Minute, BucketKey = ''2024-01-15T14:30'', BucketStart = time_Date 2024 1 15 14 30 0 0\<rparr>"

definition test_window_2 :: store_Window where
  "test_window_2 =
     \<lparr>Duration = Minute, BucketKey = ''2024-01-15T14:31'', BucketStart = time_Date 2024 1 15 14 31 0 0\<rparr>"



definition test_sqlite_2 :: SQLiteStore where
  "test_sqlite_2 =
     \<lparr>rows = [''key'' \<mapsto> \<lparr>row_count = 2, bucket_key = ''2024-01-15T14:30'', window_seconds = 60\<rparr>],
      sql_faults = []\<rparr>"


definition test_sqlite_3 :: SQLiteStore where
  "test_sqlite_3 =
     \<lparr>rows = [''key'' \<mapsto> \<lparr>row_count = 3, bucket_key = ''2024-01-15T14:30'', window_seconds = 60\<rparr>],
      sql_faults = []\<rparr>"

definition test_sqlite_commit_fails :: SQLiteStore where
  "test_sqlite_commit_fails =
     \<lparr>rows = [''key'' \<mapsto> \<lparr>row_count = 3, bucket_key = ''2024-01-15T14:30'', window_seconds = 60\<rparr>],
      sql_faults = [None, None, None, Some (BackendError ''database is locked'')]\<rparr>"

definition test_redis_empty :: RedisStore where
  "test_redis_empty = \<lparr>hashes = Map.empty, redis_clock = 1705329005000, redis_calls = []\<rparr>"

definition test_memory_2 :: MemoryStore where
  "test_memory_2 = \<lparr>buckets = [''key'' \<mapsto> \<lparr>count = 2, bucketKey = ''2024-01-15T14:30''\<rparr>]\<rparr>"


definition test_redis_large :: RedisStore where
  "test_redis_large =
     \<lparr>hashes = [''erl:key'' \<mapsto> \<lparr>hash_count = 9007199254740992,
                                  hash_bucket_key = ''2024-01-15T14:30'',
                                  hash_expire_at = None\<rparr>],
      redis_clock = 1705329005000, redis_calls = []\<rparr>"

definition test_redis_month :: RedisStore where
  "test_redis_month =
     \<lparr>hashes = Map.empty, redis_clock = 1704067200000,
      redis_calls = [(0, None), (2592000001, None)]\<rparr>"

definition test_window_month :: store_Window where
  "test_window_month =
     \<lparr>Duration = Window_Duration PerMonth, BucketKey = ''2024-01'',
      BucketStart = time_Date 2024 1 1 0 0 0 0\<rparr>"


text \<open>
  The resource that \<open>Check\<close> charges for a URL: the first registered resource whose
  pattern matches.
\<close>

definition first_match :: "(string \<Rightarrow> URL option) \<Rightarrow> Resource list \<Rightarrow> string \<Rightarrow> Resource option" where
  "first_match url_Parse rs rawURL = find (\<lambda>r. matchURL url_Parse rawURL (Pattern r)) rs"

text \<open>
  Sequential calls of \<open>Check\<close>, one per (URL, time of the call) of a list: the results
  in order, and the limiter and the caller's state after the last call.
\<close>

fun Check_all ::
  "(string \<Rightarrow> URL option) \<Rightarrow> ('s, 'u) Limiter \<Rightarrow> (string \<times> Time) list \<Rightarrow> 'u
     \<Rightarrow> error option list \<times> ('s, 'u) Limiter \<times> 'u" where
  "Check_all url_Parse l [] u = ([], l, u)"
| "Check_all url_Parse l ((rawURL, now) # calls) u =
     (let (err, l', u') = Check url_Parse l rawURL now u;
          (errs, l'', u'') = Check_all url_Parse l' calls u'
      in (err # errs, l'', u''))"

text \<open>
  A backend counts when, from every state that satisfies \<open>ok\<close> (no failure is coming)
  and whose counter for the key can still grow, \<open>Increment\<close> returns \<open>next_count\<close> of
  the stored entry without error, stores it under the window's bucket key, and is
  \<open>ok\<close> again. \<open>entry\<close> reads the stored entry of a key.
\<close>

definition implements_counting ::
  "'s Store \<Rightarrow> ('s \<Rightarrow> bool) \<Rightarrow> ('s \<Rightarrow> string \<Rightarrow> (int64 \<times> string) option) \<Rightarrow> bool" where
  "implements_counting P ok entry =
     (\<forall>s key w. ok s \<and> entry s key \<noteq> Some (MaxInt64, BucketKey w) \<longrightarrow>
        fst (Increment P s key w) = (next_count (entry s key) w, None)
        \<and> ok (snd (Increment P s key w))
        \<and> entry (snd (Increment P s key w)) key = Some (next_count (entry s key) w, BucketKey w))"

text \<open>
  The stored entry of a key after \<open>j\<close> increments in the bucket \<open>k\<close>: before the
  first one there is no entry of that bucket, afterwards the entry holds \<open>j\<close>.
\<close>

definition counted_in_bucket :: "string \<Rightarrow> nat \<Rightarrow> (int64 \<times> string) option \<Rightarrow> bool" where
  "counted_in_bucket k j stored =
     (if j = 0 then map_option snd stored \<noteq> Some k else stored = Some (of_nat j, k))"


text \<open>
  What the \<open>n\<close>-th call in a bucket is to return for resource \<open>r\<close>, and what it is to
  do to the caller's state: nothing up to the limit; past the limit the callback runs
  with the resource and the count, and the call is refused under \<open>Block\<close> and
  \<open>BlockWithQueue\<close>.
\<close>

definition nth_call_result :: "Resource \<Rightarrow> nat \<Rightarrow> Time \<Rightarrow> error option" where
  "nth_call_result r n now =
     (if int n \<le> sint (Limit r) then None
      else if Strategy r = Block \<or> Strategy r = BlockWithQueue then
        Some (LimitExceeded
               \<lparr>Resource = r, Current = of_nat n,
                resetAt = time_Add (Window_BucketStart (Window r) now) (Window_Duration (Window r))\<rparr>)
      else None)"

definition nth_call_effect :: "('s, 'u) Limiter \<Rightarrow> Resource \<Rightarrow> nat \<Rightarrow> 'u \<Rightarrow> 'u" where
  "nth_call_effect l r n u =
     (if int n \<le> sint (Limit r) then u
      else case onLimitReached l of None \<Rightarrow> u | Some f \<Rightarrow> f r (of_nat n) u)"

text \<open>
  For the examples: a parser for URLs of the form \<open>https://host/path?query\<close>, a
  callback that logs the resource name and the count, and the limiter of the tests,
  with one resource of limit 2 under the strategy given.
\<close>

definition test_url_Parse :: "string \<Rightarrow> URL option" where
  "test_url_Parse raw =
     (if take 8 raw = ''https://'' then
        (let rest = drop 8 raw
         in Some \<lparr>Host = takeWhile (\<lambda>c. c \<noteq> CHR ''/'') rest,
                  Path = takeWhile (\<lambda>c. c \<noteq> CHR ''?'') (dropWhile (\<lambda>c. c \<noteq> CHR ''/'') rest)\<rparr>)
      else None)"

definition test_callback :: "Resource \<Rightarrow> int64 \<Rightarrow> (string \<times> int64) list \<Rightarrow> (string \<times> int64) list" where
  "test_callback r current log = log @ [(Name r, current)]"

definition test_resource :: "Strategy \<Rightarrow> Resource" where
  "test_resource strategy =
     \<lparr>Name = ''test-api'', Pattern = ''api.test.com/*'', Limit = 2, Window = PerMinute,
      Strategy = strategy\<rparr>"

definition test_limiter :: "Strategy \<Rightarrow> (MemoryStore, (string \<times> int64) list) Limiter" where
  "test_limiter strategy = Register (New (Some test_callback)) (test_resource strategy)"

text \<open>Two instants in the minute 2024-01-15T14:30 UTC.\<close>

definition test_now_1 :: Time where "test_now_1 = 1705329025000000005"
definition test_now_2 :: Time where "test_now_2 = 1705329058000000000"


definition test_memory_api :: "int64 \<Rightarrow> MemoryStore" where
  \<comment> \<open>the memory store after \<open>n\<close> calls for \<open>test-api\<close> in that minute\<close>
  "test_memory_api n =
     \<lparr>buckets = [''test-api'' \<mapsto> \<lparr>count = n, bucketKey = ''2024-01-15T14:30''\<rparr>]\<rparr>"

definition test_url :: string where
  "test_url = ''https://api.test.com/v1/foo''"


definition test_calls :: "(string \<times> Time) list" where
  "test_calls = [(test_url, test_now_1), (test_url, test_now_2), (test_url, test_now_1),
                 (test_url, test_now_2)]"


section \<open>Properties of the pattern matcher\<close>

lemma list_ex_upt_Suc: "list_ex P [0..<Suc n] = (\<exists>i\<le>n. P i)"
proof -
  have "list_ex P [0..<Suc n] = (\<exists>i\<in>{0..<Suc n}. P i)"
    unfolding list_ex_iff set_upt ..
  also have "\<dots> = (\<exists>i\<le>n. P i)"
    by (auto simp: less_Suc_eq_le)
  finally show ?thesis .
qed

lemma wildcardMatch_eq_loop: "wildcardMatch p s = wildcardMatch_loop p s"
  by simp

lemma wildcardMatch_loop_star:
  "wildcardMatch_loop (CHR ''*'' # p) s =
     (p = [] \<or> (\<exists>i\<le>length s. wildcardMatch_loop p (drop i s)))"
  by (simp only: wildcardMatch_loop.simps list_ex_upt_Suc wildcardMatch_eq_loop length_0_conv
        if_True split: if_splits) auto

lemma wildcardMatch_loop_char:
  "c \<noteq> CHR ''*'' \<Longrightarrow>
   wildcardMatch_loop (c # p) s = (\<exists>t. s = c # t \<and> wildcardMatch_loop p t)"
  by (cases s) auto

lemma wildcardMatch_loop_prefix:
  assumes "wildcardMatch_loop q r"
  shows "wildcardMatch_loop (p @ q) (p @ r)"
proof (induction p)
  case Nil
  show ?case using assms by simp
next
  case (Cons c p)
  show ?case
  proof (cases "c = CHR ''*''")
    case False
    with Cons show ?thesis by (simp add: wildcardMatch_loop_char)
  next
    case True
    have "wildcardMatch_loop (p @ q) (drop 1 ((c # p) @ r))"
      using Cons by simp
    then have "\<exists>i\<le>length ((c # p) @ r). wildcardMatch_loop (p @ q) (drop i ((c # p) @ r))"
      by (intro exI[of _ 1]) simp
    with True show ?thesis
      by (auto simp: wildcardMatch_loop_star simp del: wildcardMatch_loop.simps)
  qed
qed

lemma wildcardMatch_loop_refl: "wildcardMatch_loop s s"
  using wildcardMatch_loop_prefix [of "[]" "[]" s] by simp

lemma wildcardMatch_loop_star_skip:
  assumes "wildcardMatch_loop s r"
  shows "wildcardMatch_loop (CHR ''*'' # s) (m @ r)"
proof -
  have "wildcardMatch_loop s (drop (length m) (m @ r))"
    using assms by simp
  then have "\<exists>i\<le>length (m @ r). wildcardMatch_loop s (drop i (m @ r))"
    by (intro exI[of _ "length m"]) simp
  then show ?thesis
    by (auto simp: wildcardMatch_loop_star simp del: wildcardMatch_loop.simps)
qed

lemma wildcardMatch_star_between:
  "wildcardMatch s r \<Longrightarrow> wildcardMatch (p @ ''*'' @ s) (p @ m @ r)"
  unfolding wildcardMatch_eq_loop
  by (rule wildcardMatch_loop_prefix) (simp only: append_Cons append_Nil wildcardMatch_loop_star_skip)

lemma globMatch_of_wildcardMatch: "wildcardMatch p v \<Longrightarrow> globMatch p v"
  by (simp add: globMatch_def)

text \<open>
  C6. A star inside a pattern stands for any string \<open>m\<close>, empty or not, with or
  without \<open>/\<close>: when the rest \<open>s\<close> of the pattern matches the rest \<open>r\<close> of the value,
  the pattern \<open>p * s\<close> matches the value \<open>p m r\<close>, for \<open>wildcardMatch\<close> and for
  \<open>globMatch\<close>; in particular \<open>p * s\<close> matches \<open>p m s\<close>. The matcher tries every split
  point: a pattern that starts with a star and goes on with \<open>s\<close> matches \<open>r\<close> exactly
  when \<open>s\<close> is empty or \<open>s\<close> matches some suffix \<open>drop i r\<close> of \<open>r\<close>.
\<close>

theorem wildcard_star_matches_any_infix:
  "(wildcardMatch s r \<longrightarrow>
      wildcardMatch (p @ ''*'' @ s) (p @ m @ r) \<and> globMatch (p @ ''*'' @ s) (p @ m @ r))
   \<and> wildcardMatch (p @ ''*'' @ s) (p @ m @ s)
   \<and> globMatch (p @ ''*'' @ s) (p @ m @ s)
   \<and> (wildcardMatch (''*'' @ s) r \<longleftrightarrow> s = [] \<or> (\<exists>i\<le>length r. wildcardMatch s (drop i r)))"
proof -
  have refl: "wildcardMatch s s"
    unfolding wildcardMatch_eq_loop by (rule wildcardMatch_loop_refl)
  have split: "wildcardMatch (''*'' @ s) r \<longleftrightarrow> s = [] \<or> (\<exists>i\<le>length r. wildcardMatch s (drop i r))"
    unfolding wildcardMatch_eq_loop by (simp only: append_Cons append_Nil wildcardMatch_loop_star)
  show ?thesis
    using refl split wildcardMatch_star_between globMatch_of_wildcardMatch by blast
qed

theorem wildcard_star_matches_any_infix_witness:
  "wildcardMatch ''/charges'' ''/charges''
   \<and> wildcardMatch ''api.stripe.com/*/charges'' ''api.stripe.com/v1/eu/charges''
   \<and> globMatch ''api.stripe.com/*/charges'' ''api.stripe.com/v1/eu/charges''
   \<and> globMatch ''api.stripe.com/*/charges'' ''api.stripe.com//charges''"
proof -
  have h: "wildcardMatch ''/charges'' ''/charges''"
    by code_simp
  show ?thesis
    using h wildcard_star_matches_any_infix
            [of "''/charges''" "''/charges''" "''api.stripe.com/''" "''v1/eu''"]
          wildcard_star_matches_any_infix
            [of "''/charges''" "''/charges''" "''api.stripe.com/''" "[]"]
    by simp
qed


section \<open>Properties of the counter stores\<close>

subsection \<open>Integers that pass through \<open>float64\<close> unchanged\<close>

lemma bit_length_pos: "0 < n \<Longrightarrow> bit_length n = Suc (bit_length (n div 2))"
  by (subst bit_length.simps) simp

lemma bit_length_nonpos: "n \<le> 0 \<Longrightarrow> bit_length n = 0"
  by (subst bit_length.simps) simp

lemma bit_length_1: "bit_length 1 = 1"
  by (simp add: bit_length_pos bit_length_nonpos)

lemma bit_length_lower: "0 < n \<Longrightarrow> 2 ^ (bit_length n - 1) \<le> n"
proof (induction n rule: bit_length.induct)
  case (1 n)
  show ?case
  proof (cases "n div 2 \<le> 0")
    case True
    then show ?thesis
      using 1(2) by (simp add: bit_length_pos bit_length_nonpos)
  next
    case False
    then have pos: "0 < n div 2"
      by simp
    from 1(1) pos 1(2) have ih: "2 ^ (bit_length (n div 2) - 1) \<le> n div 2"
      by simp
    have "0 < bit_length (n div 2)"
      using pos by (simp add: bit_length_pos)
    then have "(2::int) ^ (bit_length n - 1) = 2 * 2 ^ (bit_length (n div 2) - 1)"
      using 1(2) by (simp add: bit_length_pos flip: power_Suc)
    also have "\<dots> \<le> 2 * (n div 2)"
      using ih by simp
    also have "\<dots> \<le> n"
      by simp
    finally show ?thesis .
  qed
qed

lemma bit_length_upper: "n < 2 ^ k \<Longrightarrow> bit_length n \<le> k"
proof (induction n arbitrary: k rule: bit_length.induct)
  case (1 n)
  show ?case
  proof (cases "n \<le> 0")
    case True
    then show ?thesis
      by (simp add: bit_length_nonpos)
  next
    case False
    then obtain j where k: "k = Suc j"
      using 1(2) by (cases k) auto
    have "n div 2 < 2 ^ j"
      using 1(2) k by auto
    from 1(1) [OF False this] show ?thesis
      using False k by (simp add: bit_length_pos)
  qed
qed

lemma round_half_even_1: "round_half_even p 1 = p"
  by (simp add: round_half_even_def)

lemma floor_log2_int:
  assumes "0 < a"
  shows "floor_log2 a 1 = int (bit_length a) - 1"
proof -
  define b where "b = bit_length a"
  have b1: "1 \<le> b"
    using assms by (simp add: b_def bit_length_pos)
  have low: "2 ^ (b - 1) \<le> a"
    unfolding b_def using assms by (rule bit_length_lower)
  have ne: "nat (int b - 1) = b - 1"
    by simp
  have ge: "0 \<le> int b - 1"
    using b1 by simp
  have "floor_log2 a 1 =
          (if (if 0 \<le> int b - 1 then 1 * 2 ^ nat (int b - 1) \<le> a
               else 1 \<le> a * 2 ^ nat (- (int b - 1)))
           then int b - 1 else int b - 1 - 1)"
    unfolding floor_log2_def Let_def b_def bit_length_1 by simp
  also have "\<dots> = int b - 1"
    using low ge by (simp only: ne if_True mult_1)
  finally show ?thesis
    by (simp only: b_def)
qed

lemma float64_small_exponent:
  assumes "n \<noteq> 0" and "floor_log2 \<bar>n\<bar> 1 - 52 = - int k"
  shows "float64_truncate (float64 n 1) = n"
proof (cases "k = 0")
  case True
  then have "float64 n 1 = (n, 1)"
    using assms by (simp add: float64_def Let_def round_half_even_1)
  then show ?thesis
    by (simp add: float64_truncate_def sgn_mult_abs)
next
  case False
  then have "float64 n 1 = (n * 2 ^ k, 2 ^ k)"
    using assms by (simp add: float64_def Let_def round_half_even_1)
  then have "float64_truncate (float64 n 1) = sgn (n * 2 ^ k) * (\<bar>n * 2 ^ k\<bar> div 2 ^ k)"
    by (simp only: float64_truncate_def prod.case)
  also have "\<dots> = sgn n * \<bar>n\<bar>"
    by (simp add: sgn_mult abs_mult)
  also have "\<dots> = n"
    by (rule sgn_mult_abs)
  finally show ?thesis .
qed

lemma float64_exact:
  assumes "\<bar>n\<bar> < 2 ^ 53"
  shows "float64_truncate (float64 n 1) = n"
proof (cases "n = 0")
  case True
  then show ?thesis
    by (simp add: float64_def float64_truncate_def)
next
  case False
  then have pos: "0 < \<bar>n\<bar>"
    by simp
  have b1: "1 \<le> bit_length \<bar>n\<bar>"
    using pos by (simp add: bit_length_pos)
  have b53: "bit_length \<bar>n\<bar> \<le> 53"
    using assms by (rule bit_length_upper)
  have "floor_log2 \<bar>n\<bar> 1 - 52 = - int (53 - bit_length \<bar>n\<bar>)"
    using b1 b53 by (simp only: floor_log2_int [OF pos])
  with False show ?thesis
    by (rule float64_small_exponent)
qed

lemma lua_number_reply_exact:
  assumes "\<bar>sint c\<bar> < 2 ^ 53"
  shows "lua_number_reply c = c"
  by (simp add: lua_number_reply_def float64_exact [OF assms])

text \<open>
  Beyond that range the reply is rounded. A duration just below a whole second can
  convert to that second: 20000000.999999999 seconds give 20000001.
\<close>

lemma lua_number_reply_rounds: "lua_number_reply 9007199254740993 = 9007199254740992"
  by code_simp

lemma Duration_Seconds_rounds: "Duration_Seconds 20000000999999999 = 20000001"
  by code_simp

lemma Duration_Seconds_Minute: "Duration_Seconds Minute = 60"
  by code_simp

subsection \<open>Incrementing a counter\<close>

lemma MemoryStore_Increment_result:
  "fst (MemoryStore_Increment m key w) = (next_count (MemoryStore_entry m key) w, None)"
  by (simp add: MemoryStore_Increment_def next_count_def MemoryStore_entry_def Let_def
        split: option.splits)

lemma MemoryStore_Increment_entry:
  "MemoryStore_entry (snd (MemoryStore_Increment m key w)) k =
     (if k = key then Some (next_count (MemoryStore_entry m key) w, BucketKey w)
      else MemoryStore_entry m k)"
  by (simp add: MemoryStore_Increment_def next_count_def MemoryStore_entry_def Let_def
        split: option.splits)

lemma db_call_no_faults: "sql_faults s = [] \<Longrightarrow> db_call s = (None, s)"
  by (simp add: db_call_def)

lemma SQLiteStore_Increment_result:
  "sql_faults s = [] \<Longrightarrow>
   fst (SQLiteStore_Increment s key w) = (next_count (SQLiteStore_entry s key) w, None)"
  by (simp add: SQLiteStore_Increment_def db_call_no_faults next_count_def SQLiteStore_entry_def
        Let_def split: option.splits)

lemma SQLiteStore_Increment_entry:
  "sql_faults s = [] \<Longrightarrow>
   SQLiteStore_entry (snd (SQLiteStore_Increment s key w)) k =
     (if k = key then Some (next_count (SQLiteStore_entry s key) w, BucketKey w)
      else SQLiteStore_entry s k)"
  by (simp add: SQLiteStore_Increment_def db_call_no_faults next_count_def SQLiteStore_entry_def
        Let_def split: option.splits)

lemma SQLiteStore_Increment_faults:
  "sql_faults s = [] \<Longrightarrow> sql_faults (snd (SQLiteStore_Increment s key w)) = []"
  by (simp add: SQLiteStore_Increment_def db_call_no_faults Let_def split: option.splits)



lemma redis_call_hashes: "hashes (snd (redis_call s)) = hashes s"
  by (simp add: redis_call_def split: list.splits prod.splits)


lemma redis_lookup_Some: "redis_lookup db now key = Some h \<Longrightarrow> db key = Some h"
  by (auto simp add: redis_lookup_def split: option.splits if_splits)













lemma small_counts: "\<bar>sint (1 :: int64)\<bar> < 2 ^ 53" "\<bar>sint (2 :: int64)\<bar> < 2 ^ 53"
  by simp_all



text \<open>
  A count that the Lua number does not hold exactly: the hash takes the sum, and the
  reply is the rounded sum.
\<close>

lemma RedisStore_Increment_rounded_reply:
  "fst (RedisStore_Increment test_redis_large ''key'' test_window_1) = (9007199254740992, None)
   \<and> RedisStore_held (snd (RedisStore_Increment test_redis_large ''key'' test_window_1)) ''key''
       = Some (9007199254740993, BucketKey test_window_1)"
proof -
  have m: "(9007199254740992 :: int64) \<noteq> MaxInt64"
    by (simp add: MaxInt64_def)
  have l: "lua_number_reply (9007199254740992 + 1) = 9007199254740992"
    using lua_number_reply_rounds by simp
  show ?thesis
    using m l
    by (simp add: RedisStore_Increment_def incrementScript_def Let_def
          RedisStore_held_def redis_lookup_def redis_call_def test_redis_large_def
          test_window_1_def redisKey_def)
qed

text \<open>
  A key whose bucket lasts longer than the seconds of its window can expire inside the
  bucket: the next \<open>Increment\<close> finds no counter and returns 1.
\<close>

lemma Duration_Seconds_PerMonth: "Duration_Seconds (Window_Duration PerMonth) = 2592000"
  by code_simp

lemma RedisStore_Increment_after_expiry:
  "Increment_seq RedisStore_Store test_redis_month ''key'' [test_window_month, test_window_month]
     = [(1, None), (1, None)]"
  by (simp add: RedisStore_Store_def RedisStore_Increment_def incrementScript_def Let_def
        redis_lookup_def redis_call_def redisKey_def test_redis_month_def test_window_month_def
        Duration_Seconds_PerMonth)




subsection \<open>Reading a counter\<close>

lemma MemoryStore_Get_result:
  "MemoryStore_Get m key w = ((stored_count (MemoryStore_entry m key) w, None), m)"
  by (simp add: MemoryStore_Get_def MemoryStore_entry_def stored_count_def split: option.splits)

lemma SQLiteStore_Get_rows: "rows (snd (SQLiteStore_Get s key w)) = rows s"
  by (simp add: SQLiteStore_Get_def db_call_def Let_def split: option.splits list.splits)

lemma SQLiteStore_Get_result:
  "fst (db_call s) = None \<Longrightarrow>
   fst (SQLiteStore_Get s key w) = (stored_count (SQLiteStore_entry s key) w, None)"
  by (auto simp add: SQLiteStore_Get_def db_call_def SQLiteStore_entry_def stored_count_def
        Let_def split: option.splits list.splits)

lemma RedisStore_Get_hashes: "hashes (snd (RedisStore_Get s key w)) = hashes s"
  by (simp add: RedisStore_Get_def Let_def case_prod_beta redis_call_hashes split: option.splits)

lemma RedisStore_Get_result:
  "fst (redis_call s) = None \<Longrightarrow>
   fst (RedisStore_Get s key w) = (stored_count (RedisStore_entry s key) w, None)"
  by (auto simp add: RedisStore_Get_def RedisStore_entry_def stored_count_def Let_def
        case_prod_beta redis_call_hashes split: option.splits)

lemma stored_count_same_bucket: "stored_count (Some (c, BucketKey w)) w = c"
  by (simp add: stored_count_def)

subsection \<open>Tiered store\<close>

lemma TieredStore_Increment_failure:
  assumes "Increment P (persistent t) key w = ((c, Some e), p')"
  shows "TieredStore_Increment P t key w = ((0, Some e), t\<lparr>persistent := p'\<rparr>)"
  using assms by (simp add: TieredStore_Increment_def)

lemma TieredStore_Increment_success:
  assumes "Increment P (persistent t) key w = ((c, None), p')"
  shows "TieredStore_Increment P t key w =
           ((c, None), \<lparr>memory = snd (MemoryStore_Increment (memory t) key w), persistent = p'\<rparr>)"
  using assms by (simp add: TieredStore_Increment_def case_prod_beta)

lemma TieredStore_Increment_success_inv:
  assumes "TieredStore_Increment P t key w = ((c, None), t')"
  shows "Increment P (persistent t) key w = ((c, None), persistent t')"
proof -
  obtain c0 err p' where inc: "Increment P (persistent t) key w = ((c0, err), p')"
    by (metis surj_pair)
  show ?thesis
  proof (cases err)
    case None
    with inc assms TieredStore_Increment_success [of P t key w c0 p'] show ?thesis
      by auto
  next
    case (Some e)
    with inc assms TieredStore_Increment_failure [of P t key w c0 e p'] show ?thesis
      by simp
  qed
qed

lemma TieredStore_Get_hit:
  assumes "fst (fst (MemoryStore_Get (memory t) key w)) = c" and "sint c > 0"
  shows "TieredStore_Get P t key w = ((c, None), t)"
  using assms by (simp add: TieredStore_Get_def MemoryStore_Get_result)

lemma TieredStore_Get_miss:
  assumes "sint (fst (fst (MemoryStore_Get (memory t) key w))) \<le> 0"
    and "Get P (persistent t) key w = ((c, None), p')"
  shows "TieredStore_Get P t key w =
           ((c, None),
            \<lparr>memory = (if sint c > 0
                       then (memory t)\<lparr>buckets := (buckets (memory t))
                              (key \<mapsto> \<lparr>count = c, bucketKey = BucketKey w\<rparr>)\<rparr>
                       else memory t),
             persistent = p'\<rparr>)"
  using assms by (simp add: TieredStore_Get_def MemoryStore_Get_result Let_def)

lemma TieredStore_Get_miss_failure:
  assumes "sint (fst (fst (MemoryStore_Get (memory t) key w))) \<le> 0"
    and "Get P (persistent t) key w = ((c, Some e), p')"
  shows "TieredStore_Get P t key w = ((0, Some e), t\<lparr>persistent := p'\<rparr>)"
  using assms by (simp add: TieredStore_Get_def MemoryStore_Get_result Let_def)

lemma NewTieredStore_Get:
  assumes "fst (Get P p key w) = (c, None)"
  shows "fst (TieredStore_Get P (NewTieredStore p) key w) = (c, None)"
proof -
  have miss: "sint (fst (fst (MemoryStore_Get (memory (NewTieredStore p)) key w))) \<le> 0"
    by (simp add: NewTieredStore_def NewMemoryStore_def MemoryStore_Get_def)
  obtain p' where "Get P (persistent (NewTieredStore p)) key w = ((c, None), p')"
    using assms by (cases "Get P p key w") (simp add: NewTieredStore_def)
  from TieredStore_Get_miss [OF miss this] show ?thesis
    by simp
qed

lemma SQLiteStore_Increment_success_entry:
  assumes "SQLiteStore_Increment s key w = ((c, None), s')"
  shows "SQLiteStore_entry s' key = Some (c, BucketKey w)"
  using assms
  by (auto simp add: SQLiteStore_Increment_def SQLiteStore_entry_def db_call_def Let_def
        split: option.splits list.splits prod.splits)

lemma lua_number_reply_1: "lua_number_reply 1 = 1"
  by (simp add: lua_number_reply_exact)

lemma RedisStore_Increment_success_hash:
  assumes "RedisStore_Increment s key w = ((c, None), s')"
  shows "\<exists>h. hashes s' (redisKey key) = Some h \<and> hash_bucket_key h = BucketKey w
             \<and> c = lua_number_reply (hash_count h)"
  using assms
  by (auto simp add: RedisStore_Increment_def incrementScript_def Let_def case_prod_beta
        lua_number_reply_1
        split: option.splits sum.splits if_splits)

lemma MemoryStore_Increment_success_entry:
  assumes "MemoryStore_Increment m key w = ((c, None), m')"
  shows "MemoryStore_entry m' key = Some (c, BucketKey w)"
  using assms MemoryStore_Increment_result [of m key w] MemoryStore_Increment_entry [of m key w key]
  by simp

lemma fresh_TieredStore_SQLite:
  assumes "TieredStore_Increment SQLiteStore_Store t key w = ((c, None), t')"
    and "fst (db_call (persistent t')) = None"
  shows "fst (TieredStore_Get SQLiteStore_Store (NewTieredStore (persistent t')) key w) = (c, None)"
proof -
  have "SQLiteStore_Increment (persistent t) key w = ((c, None), persistent t')"
    using TieredStore_Increment_success_inv [OF assms(1)] by (simp add: SQLiteStore_Store_def)
  then have "SQLiteStore_entry (persistent t') key = Some (c, BucketKey w)"
    by (rule SQLiteStore_Increment_success_entry)
  then have "fst (Get SQLiteStore_Store (persistent t') key w) = (c, None)"
    using assms(2)
    by (simp add: SQLiteStore_Store_def SQLiteStore_Get_result stored_count_same_bucket)
  then show ?thesis
    by (rule NewTieredStore_Get)
qed

lemma fresh_TieredStore_Redis:
  assumes "TieredStore_Increment RedisStore_Store t key w = ((c, None), t')"
    and "fst (redis_call (persistent t')) = None"
    and "RedisStore_entry (persistent t') key = Some (n, bk)"
    and "\<bar>sint n\<bar> < 2 ^ 53"
  shows "fst (TieredStore_Get RedisStore_Store (NewTieredStore (persistent t')) key w) = (c, None)"
proof -
  have "RedisStore_Increment (persistent t) key w = ((c, None), persistent t')"
    using TieredStore_Increment_success_inv [OF assms(1)] by (simp add: RedisStore_Store_def)
  then obtain h where h: "hashes (persistent t') (redisKey key) = Some h"
    and b: "hash_bucket_key h = BucketKey w" and c: "c = lua_number_reply (hash_count h)"
    using RedisStore_Increment_success_hash by blast
  obtain h0 where "redis_lookup (hashes (persistent t'))
                     (redis_clock (snd (redis_call (persistent t')))) (redisKey key) = Some h0"
    and n: "n = hash_count h0" and "bk = hash_bucket_key h0"
    using assms(3) by (auto simp add: RedisStore_entry_def)
  then have "h0 = h"
    using h redis_lookup_Some by fastforce
  then have e: "RedisStore_entry (persistent t') key = Some (c, BucketKey w)"
    using assms(3,4) b c n \<open>bk = hash_bucket_key h0\<close> by (simp add: lua_number_reply_exact)
  then have "fst (Get RedisStore_Store (persistent t') key w) = (c, None)"
    using assms(2)
    by (simp add: RedisStore_Store_def RedisStore_Get_result stored_count_same_bucket)
  then show ?thesis
    by (rule NewTieredStore_Get)
qed

lemma fresh_TieredStore_Memory:
  assumes "TieredStore_Increment MemoryStore_Store t key w = ((c, None), t')"
  shows "fst (TieredStore_Get MemoryStore_Store (NewTieredStore (persistent t')) key w) = (c, None)"
proof -
  have "MemoryStore_Increment (persistent t) key w = ((c, None), persistent t')"
    using TieredStore_Increment_success_inv [OF assms(1)] by (simp add: MemoryStore_Store_def)
  then have "MemoryStore_entry (persistent t') key = Some (c, BucketKey w)"
    by (rule MemoryStore_Increment_success_entry)
  then have "fst (Get MemoryStore_Store (persistent t') key w) = (c, None)"
    by (simp add: MemoryStore_Store_def MemoryStore_Get_result stored_count_same_bucket)
  then show ?thesis
    by (rule NewTieredStore_Get)
qed

text \<open>
  C4. \<open>TieredStore.Get\<close> returns the memory tier's count when it is positive and leaves
  the store as it is. When the memory tier's count is not positive (zero in
  particular) and the durable tier's \<open>Get\<close> returns \<open>c\<close> without error, it returns
  \<open>c\<close>; the memory tier's entry for the key becomes \<open>c\<close> with the window's bucket key
  when \<open>c\<close> is positive, and the memory tier is unchanged otherwise. When an
  \<open>Increment\<close> through a tiered store over SQLite, Redis or a memory store has returned
  \<open>c\<close>, a new tiered store over the durable state it left returns \<open>c\<close> from \<open>Get\<close> (the
  read of the database not failing; for Redis, the read finding the key, not expired,
  with a count below \<open>2 ^ 53\<close> in absolute value: the counts that the Lua number
  carries unchanged to the caller of \<open>Increment\<close>).
\<close>

theorem TieredStore_Get_memory_then_durable:
  "(fst (fst (MemoryStore_Get (memory t) key w)) = c \<and> sint c > 0 \<longrightarrow>
      TieredStore_Get P t key w = ((c, None), t))
   \<and> (sint (fst (fst (MemoryStore_Get (memory t) key w))) \<le> 0
        \<and> Get P (persistent t) key w = ((c, None), p') \<longrightarrow>
      TieredStore_Get P t key w =
        ((c, None),
         \<lparr>memory = (if sint c > 0
                    then (memory t)\<lparr>buckets := (buckets (memory t))
                           (key \<mapsto> \<lparr>count = c, bucketKey = BucketKey w\<rparr>)\<rparr>
                    else memory t),
          persistent = p'\<rparr>))
   \<and> (TieredStore_Increment SQLiteStore_Store ts key w = ((c, None), ts')
        \<and> fst (db_call (persistent ts')) = None \<longrightarrow>
      fst (TieredStore_Get SQLiteStore_Store (NewTieredStore (persistent ts')) key w) = (c, None))
   \<and> (TieredStore_Increment RedisStore_Store tr key w = ((c, None), tr')
        \<and> fst (redis_call (persistent tr')) = None
        \<and> RedisStore_entry (persistent tr') key = Some (n, bk) \<and> \<bar>sint n\<bar> < 2 ^ 53 \<longrightarrow>
      fst (TieredStore_Get RedisStore_Store (NewTieredStore (persistent tr')) key w) = (c, None))
   \<and> (TieredStore_Increment MemoryStore_Store tm key w = ((c, None), tm') \<longrightarrow>
      fst (TieredStore_Get MemoryStore_Store (NewTieredStore (persistent tm')) key w) = (c, None))"
  using TieredStore_Get_hit [of t key w c P] TieredStore_Get_miss [of t key w P c p']
    fresh_TieredStore_SQLite [of ts key w c ts'] fresh_TieredStore_Redis [of tr key w c tr' n bk]
    fresh_TieredStore_Memory [of tm key w c tm']
  by blast


theorem TieredStore_Get_memory_then_durable_witness:
  "fst (fst (MemoryStore_Get test_memory_2 ''key'' test_window_1)) = 2
   \<and> sint (2 :: int64) > 0
   \<and> TieredStore_Get SQLiteStore_Store \<lparr>memory = test_memory_2, persistent = test_sqlite_3\<rparr>
         ''key'' test_window_1
       = ((2, None), \<lparr>memory = test_memory_2, persistent = test_sqlite_3\<rparr>)
   \<and> sint (fst (fst (MemoryStore_Get NewMemoryStore ''key'' test_window_1))) \<le> 0
   \<and> Get SQLiteStore_Store test_sqlite_3 ''key'' test_window_1 = ((3, None), test_sqlite_3)
   \<and> TieredStore_Get SQLiteStore_Store \<lparr>memory = NewMemoryStore, persistent = test_sqlite_3\<rparr>
         ''key'' test_window_1
       = ((3, None),
          \<lparr>memory = NewMemoryStore\<lparr>buckets := (buckets NewMemoryStore)
                       (''key'' \<mapsto> \<lparr>count = 3, bucketKey = BucketKey test_window_1\<rparr>)\<rparr>,
           persistent = test_sqlite_3\<rparr>)
   \<and> fst (TieredStore_Increment SQLiteStore_Store
             \<lparr>memory = test_memory_2, persistent = test_sqlite_2\<rparr> ''key'' test_window_1)
       = (3, None)
   \<and> persistent (snd (TieredStore_Increment SQLiteStore_Store
             \<lparr>memory = test_memory_2, persistent = test_sqlite_2\<rparr> ''key'' test_window_1))
       = test_sqlite_3
   \<and> fst (db_call test_sqlite_3) = None
   \<and> fst (TieredStore_Get SQLiteStore_Store (NewTieredStore test_sqlite_3) ''key'' test_window_1)
       = (3, None)
   \<and> fst (TieredStore_Increment RedisStore_Store (NewTieredStore test_redis_empty)
             ''key'' test_window_1) = (1, None)
   \<and> RedisStore_entry (persistent (snd (TieredStore_Increment RedisStore_Store
             (NewTieredStore test_redis_empty) ''key'' test_window_1))) ''key''
       = Some (1, BucketKey test_window_1)
   \<and> \<bar>sint (1 :: int64)\<bar> < 2 ^ 53
   \<and> fst (TieredStore_Get RedisStore_Store
             (NewTieredStore (persistent (snd (TieredStore_Increment RedisStore_Store
                (NewTieredStore test_redis_empty) ''key'' test_window_1))))
             ''key'' test_window_1) = (1, None)
   \<and> fst (TieredStore_Increment MemoryStore_Store (NewTieredStore NewMemoryStore)
             ''key'' test_window_1) = (1, None)
   \<and> fst (TieredStore_Get MemoryStore_Store
             (NewTieredStore (persistent (snd (TieredStore_Increment MemoryStore_Store
                (NewTieredStore NewMemoryStore) ''key'' test_window_1))))
             ''key'' test_window_1) = (1, None)"
proof -
  let ?hit = "\<lparr>memory = test_memory_2, persistent = test_sqlite_3\<rparr>"
  let ?cold = "\<lparr>memory = NewMemoryStore, persistent = test_sqlite_3\<rparr>"
  let ?old = "\<lparr>memory = test_memory_2, persistent = test_sqlite_2\<rparr>"
  let ?old' = "snd (TieredStore_Increment SQLiteStore_Store ?old ''key'' test_window_1)"
  let ?r = "NewTieredStore test_redis_empty"
  let ?r' = "snd (TieredStore_Increment RedisStore_Store ?r ''key'' test_window_1)"
  let ?m = "NewTieredStore NewMemoryStore"
  let ?m' = "snd (TieredStore_Increment MemoryStore_Store ?m ''key'' test_window_1)"
  have h1: "fst (fst (MemoryStore_Get test_memory_2 ''key'' test_window_1)) = 2"
    by (simp add: MemoryStore_Get_def test_memory_2_def test_window_1_def)
  have h2: "sint (2 :: int64) > 0"
    by simp
  have h3: "sint (fst (fst (MemoryStore_Get (memory ?cold) ''key'' test_window_1))) \<le> 0"
    by (simp add: MemoryStore_Get_def NewMemoryStore_def)
  have h4: "Get SQLiteStore_Store (persistent ?cold) ''key'' test_window_1
              = ((3, None), test_sqlite_3)"
    by (simp add: SQLiteStore_Store_def SQLiteStore_Get_def db_call_def test_sqlite_3_def
          test_window_1_def)
  have h5: "TieredStore_Increment SQLiteStore_Store ?old ''key'' test_window_1
              = ((3, None), ?old')"
    by (simp add: TieredStore_Increment_def SQLiteStore_Store_def SQLiteStore_Increment_def
          db_call_def test_sqlite_2_def test_window_1_def Let_def MemoryStore_Increment_def)
  have h6: "persistent ?old' = test_sqlite_3"
    by (simp add: TieredStore_Increment_def SQLiteStore_Store_def SQLiteStore_Increment_def
          db_call_def test_sqlite_2_def test_sqlite_3_def test_window_1_def Let_def
          MemoryStore_Increment_def Duration_Seconds_Minute)
  have h7: "fst (db_call (persistent ?old')) = None"
    by (simp add: h6) (simp add: db_call_def test_sqlite_3_def)
  have r1: "RedisStore_Increment test_redis_empty ''key'' test_window_1
              = ((1, None),
                 test_redis_empty\<lparr>hashes := [''erl:key'' \<mapsto>
                   \<lparr>hash_count = 1, hash_bucket_key = ''2024-01-15T14:30'',
                    hash_expire_at = Some 1705329065000\<rparr>]\<rparr>)"
    by (simp add: RedisStore_Increment_def incrementScript_def Let_def
          redis_lookup_def redis_call_def redisKey_def test_redis_empty_def test_window_1_def
          Duration_Seconds_Minute)
  have h8: "TieredStore_Increment RedisStore_Store ?r ''key'' test_window_1 = ((1, None), ?r')"
    by (simp add: TieredStore_Increment_def RedisStore_Store_def r1 NewTieredStore_def
          case_prod_beta)
  have p8: "persistent ?r' = test_redis_empty\<lparr>hashes := [''erl:key'' \<mapsto>
                   \<lparr>hash_count = 1, hash_bucket_key = ''2024-01-15T14:30'',
                    hash_expire_at = Some 1705329065000\<rparr>]\<rparr>"
    by (simp add: TieredStore_Increment_def RedisStore_Store_def r1 NewTieredStore_def
          case_prod_beta)
  have h9: "fst (redis_call (persistent ?r')) = None"
    by (simp only: p8) (simp add: redis_call_def test_redis_empty_def)
  have h9e: "RedisStore_entry (persistent ?r') ''key'' = Some (1, BucketKey test_window_1)"
    by (simp only: p8)
       (simp add: RedisStore_entry_def redis_lookup_def redis_call_def redisKey_def
          test_redis_empty_def test_window_1_def)
  have h9s: "\<bar>sint (1 :: int64)\<bar> < 2 ^ 53"
    by simp
  have h10: "TieredStore_Increment MemoryStore_Store ?m ''key'' test_window_1 = ((1, None), ?m')"
    by (simp add: TieredStore_Increment_def MemoryStore_Store_def NewTieredStore_def Let_def
          MemoryStore_Increment_def NewMemoryStore_def)
  have c1: "TieredStore_Get SQLiteStore_Store ?hit ''key'' test_window_1 = ((2, None), ?hit)"
    using h1 h2
      TieredStore_Get_memory_then_durable
        [where t = ?hit and key = "''key''" and w = test_window_1 and c = 2
           and P = SQLiteStore_Store]
    by simp
  have c2: "TieredStore_Get SQLiteStore_Store ?cold ''key'' test_window_1
              = ((3, None),
                 \<lparr>memory = NewMemoryStore\<lparr>buckets := (buckets NewMemoryStore)
                       (''key'' \<mapsto> \<lparr>count = 3, bucketKey = BucketKey test_window_1\<rparr>)\<rparr>,
                  persistent = test_sqlite_3\<rparr>)"
    using h3 h4
      TieredStore_Get_memory_then_durable
        [where t = ?cold and key = "''key''" and w = test_window_1 and c = 3
           and P = SQLiteStore_Store and p' = test_sqlite_3]
    by simp
  have c3: "fst (TieredStore_Get SQLiteStore_Store (NewTieredStore (persistent ?old'))
                   ''key'' test_window_1) = (3, None)"
    using h5 h7
      TieredStore_Get_memory_then_durable
        [where key = "''key''" and w = test_window_1 and c = 3 and ts = ?old and ts' = ?old'
           and P = SQLiteStore_Store and t = ?cold]
    by blast
  have c4: "fst (TieredStore_Get RedisStore_Store (NewTieredStore (persistent ?r'))
                   ''key'' test_window_1) = (1, None)"
    using h8 h9 h9e h9s
      TieredStore_Get_memory_then_durable
        [where key = "''key''" and w = test_window_1 and c = 1 and tr = ?r and tr' = ?r'
           and P = SQLiteStore_Store and t = ?cold and n = 1 and bk = "BucketKey test_window_1"]
    by blast
  have c5: "fst (TieredStore_Get MemoryStore_Store (NewTieredStore (persistent ?m'))
                   ''key'' test_window_1) = (1, None)"
    using h10
      TieredStore_Get_memory_then_durable
        [where key = "''key''" and w = test_window_1 and c = 1 and tm = ?m and tm' = ?m'
           and P = SQLiteStore_Store and t = ?cold]
    by blast
  have h5': "fst (TieredStore_Increment SQLiteStore_Store ?old ''key'' test_window_1) = (3, None)"
    using h5 by (metis fst_conv)
  have h8': "fst (TieredStore_Increment RedisStore_Store ?r ''key'' test_window_1) = (1, None)"
    using h8 by (metis fst_conv)
  have h10': "fst (TieredStore_Increment MemoryStore_Store ?m ''key'' test_window_1) = (1, None)"
    using h10 by (metis fst_conv)
  have h7': "fst (db_call test_sqlite_3) = None"
    using h7 h6 by simp
  have c3': "fst (TieredStore_Get SQLiteStore_Store (NewTieredStore test_sqlite_3)
                   ''key'' test_window_1) = (3, None)"
    using c3 h6 by simp
  from h1 h2 c1 h3 h4 c2 h5' h6 h7' c3' h8' h9e h9s c4 h10' c5 show ?thesis
    by simp
qed


text \<open>
  C10. When the durable tier's \<open>Increment\<close> returns an error, \<open>TieredStore.Increment\<close>
  returns the count 0 with that error, whatever count came with it, and the memory
  tier is what it was before the call.
\<close>

theorem TieredStore_Increment_durable_error:
  assumes "Increment P (persistent t) key w = ((c, Some e), p')"
  shows "fst (TieredStore_Increment P t key w) = (0, Some e)
         \<and> memory (snd (TieredStore_Increment P t key w)) = memory t
         \<and> persistent (snd (TieredStore_Increment P t key w)) = p'"
  using TieredStore_Increment_failure [OF assms] by simp

theorem TieredStore_Increment_durable_error_witness:
  "Increment SQLiteStore_Store test_sqlite_commit_fails ''key'' test_window_1
     = ((4, Some (BackendError ''database is locked'')), test_sqlite_3)
   \<and> fst (TieredStore_Increment SQLiteStore_Store
             \<lparr>memory = test_memory_2, persistent = test_sqlite_commit_fails\<rparr>
             ''key'' test_window_1)
       = (0, Some (BackendError ''database is locked''))
   \<and> memory (snd (TieredStore_Increment SQLiteStore_Store
             \<lparr>memory = test_memory_2, persistent = test_sqlite_commit_fails\<rparr>
             ''key'' test_window_1))
       = test_memory_2"
proof -
  have h: "Increment SQLiteStore_Store
             (persistent \<lparr>memory = test_memory_2, persistent = test_sqlite_commit_fails\<rparr>)
             ''key'' test_window_1
           = ((4, Some (BackendError ''database is locked'')), test_sqlite_3)"
    by (simp add: SQLiteStore_Store_def SQLiteStore_Increment_def db_call_def
          test_sqlite_commit_fails_def test_sqlite_3_def test_window_1_def)
  from TieredStore_Increment_durable_error [OF h] h show ?thesis
    by simp
qed

text \<open>
  C5, as stated, fails for the tiered store: \<open>Get\<close> on a tiered store with an empty
  memory tier over a database that holds the count 3 writes that count into the
  memory tier.
\<close>

theorem TieredStore_Get_changes_memory_tier:
  "MemoryStore_entry (memory (NewTieredStore test_sqlite_3)) ''key'' = None
   \<and> MemoryStore_entry
        (memory (snd (TieredStore_Get SQLiteStore_Store (NewTieredStore test_sqlite_3)
                        ''key'' test_window_1))) ''key''
       = Some (3, ''2024-01-15T14:30'')"
  by (simp add: TieredStore_Get_def NewTieredStore_def NewMemoryStore_def MemoryStore_Get_def
        MemoryStore_entry_def SQLiteStore_Store_def SQLiteStore_Get_def db_call_def
        test_sqlite_3_def test_window_1_def)

lemma TieredStore_Get_memory_cases:
  "memory (snd (TieredStore_Get P t key w)) = memory t
   \<or> (sint (fst (fst (MemoryStore_Get (memory t) key w))) \<le> 0
       \<and> (\<exists>c. sint c > 0 \<and> fst (Get P (persistent t) key w) = (c, None)
              \<and> fst (TieredStore_Get P t key w) = (c, None)
              \<and> memory (snd (TieredStore_Get P t key w))
                  = (memory t)\<lparr>buckets := (buckets (memory t))
                       (key \<mapsto> \<lparr>count = c, bucketKey = BucketKey w\<rparr>)\<rparr>))"
proof (cases "sint (fst (fst (MemoryStore_Get (memory t) key w))) > 0")
  case True
  from TieredStore_Get_hit [OF refl True] show ?thesis
    by simp
next
  case False
  then have miss: "sint (fst (fst (MemoryStore_Get (memory t) key w))) \<le> 0"
    by simp
  obtain c err p' where g: "Get P (persistent t) key w = ((c, err), p')"
    by (metis surj_pair)
  show ?thesis
  proof (cases err)
    case (Some e)
    with TieredStore_Get_miss_failure [OF miss, of P c e p'] g show ?thesis
      by simp
  next
    case None
    with TieredStore_Get_miss [OF miss, of P c p'] g miss show ?thesis
      by (cases "sint c > 0") auto
  qed
qed

lemma TieredStore_Get_persistent_cases:
  "persistent (snd (TieredStore_Get P t key w)) = persistent t
   \<or> persistent (snd (TieredStore_Get P t key w)) = snd (Get P (persistent t) key w)"
  by (simp add: TieredStore_Get_def MemoryStore_Get_result Let_def case_prod_beta
        split: option.splits)

lemma TieredStore_Get_SQLite_rows:
  "rows (persistent (snd (TieredStore_Get SQLiteStore_Store t key w))) = rows (persistent t)"
  using TieredStore_Get_persistent_cases [of SQLiteStore_Store t key w]
    SQLiteStore_Get_rows [of "persistent t" key w]
  by (auto simp: SQLiteStore_Store_def)

lemma TieredStore_Get_Redis_hashes:
  "hashes (persistent (snd (TieredStore_Get RedisStore_Store t key w))) = hashes (persistent t)"
  using TieredStore_Get_persistent_cases [of RedisStore_Store t key w]
    RedisStore_Get_hashes [of "persistent t" key w]
  by (auto simp: RedisStore_Store_def)

lemma TieredStore_Get_other_keys:
  "k \<noteq> key \<Longrightarrow>
   MemoryStore_entry (memory (snd (TieredStore_Get P t key w))) k = MemoryStore_entry (memory t) k"
  using TieredStore_Get_memory_cases [of P t key w]
  by (auto simp: MemoryStore_entry_def)

text \<open>
  C5, amended. \<open>Get\<close> of the memory, SQLite and Redis backends leaves every stored
  entry as it is, and returns the stored count when the entry's bucket key is the
  window's and 0 otherwise, 0 without error for a missing key (for SQLite and Redis:
  when the read itself does not fail). \<open>TieredStore.Get\<close> leaves the entries of an
  SQLite or Redis durable tier as they are, and the memory tier's entries of all
  other keys; it changes the memory tier only when the memory tier's count is not
  positive and the durable tier returns a positive count \<open>c\<close>, and then by setting the
  entry of the key to \<open>c\<close> with the window's bucket key.
\<close>

theorem Get_reads_without_changing_entries:
  "MemoryStore_Get m key w = ((stored_count (MemoryStore_entry m key) w, None), m)
   \<and> rows (snd (SQLiteStore_Get s key w)) = rows s
   \<and> (fst (db_call s) = None \<longrightarrow>
        fst (SQLiteStore_Get s key w) = (stored_count (SQLiteStore_entry s key) w, None))
   \<and> hashes (snd (RedisStore_Get r key w)) = hashes r
   \<and> (fst (redis_call r) = None \<longrightarrow>
        fst (RedisStore_Get r key w) = (stored_count (RedisStore_entry r key) w, None))
   \<and> rows (persistent (snd (TieredStore_Get SQLiteStore_Store ts key w))) = rows (persistent ts)
   \<and> hashes (persistent (snd (TieredStore_Get RedisStore_Store tr key w))) = hashes (persistent tr)
   \<and> (k \<noteq> key \<longrightarrow>
        MemoryStore_entry (memory (snd (TieredStore_Get P t key w))) k
          = MemoryStore_entry (memory t) k)
   \<and> (memory (snd (TieredStore_Get P t key w)) = memory t
        \<or> (sint (fst (fst (MemoryStore_Get (memory t) key w))) \<le> 0
            \<and> (\<exists>c. sint c > 0 \<and> fst (Get P (persistent t) key w) = (c, None)
                   \<and> fst (TieredStore_Get P t key w) = (c, None)
                   \<and> memory (snd (TieredStore_Get P t key w))
                       = (memory t)\<lparr>buckets := (buckets (memory t))
                            (key \<mapsto> \<lparr>count = c, bucketKey = BucketKey w\<rparr>)\<rparr>)))"
  using MemoryStore_Get_result [of m key w] SQLiteStore_Get_rows [of s key w]
    SQLiteStore_Get_result [of s key w] RedisStore_Get_hashes [of r key w]
    RedisStore_Get_result [of r key w] TieredStore_Get_SQLite_rows [of ts key w]
    TieredStore_Get_Redis_hashes [of tr key w] TieredStore_Get_other_keys [of k key P t w]
    TieredStore_Get_memory_cases [of P t key w]
  by (intro conjI impI) assumption+


theorem Get_reads_without_changing_entries_witness:
  "fst (db_call test_sqlite_3) = None
   \<and> fst (redis_call test_redis_empty) = None
   \<and> ''other'' \<noteq> ''key''
   \<and> MemoryStore_Get test_memory_2 ''key'' test_window_1 = ((2, None), test_memory_2)
   \<and> MemoryStore_Get test_memory_2 ''key'' test_window_2 = ((0, None), test_memory_2)
   \<and> fst (SQLiteStore_Get test_sqlite_3 ''key'' test_window_1) = (3, None)
   \<and> fst (SQLiteStore_Get test_sqlite_3 ''key'' test_window_2) = (0, None)
   \<and> fst (SQLiteStore_Get test_sqlite_3 ''missing'' test_window_1) = (0, None)
   \<and> fst (RedisStore_Get test_redis_empty ''key'' test_window_1) = (0, None)
   \<and> MemoryStore_entry
        (memory (snd (TieredStore_Get SQLiteStore_Store (NewTieredStore test_sqlite_3)
                        ''key'' test_window_1))) ''other'' = None"
proof -
  have h1: "fst (db_call test_sqlite_3) = None"
    by (simp add: db_call_def test_sqlite_3_def)
  have h2: "fst (redis_call test_redis_empty) = None"
    by (simp add: redis_call_def test_redis_empty_def)
  have h3: "''other'' \<noteq> ''key''"
    by simp
  note inst = Get_reads_without_changing_entries
    [where s = test_sqlite_3 and r = test_redis_empty and m = test_memory_2
       and ts = "NewTieredStore test_sqlite_3" and tr = "NewTieredStore test_redis_empty"
       and t = "NewTieredStore test_sqlite_3" and P = SQLiteStore_Store and k = "''other''"]
  show ?thesis
    using h1 h2 h3 inst [of "''key''" test_window_1] inst [of "''key''" test_window_2]
      inst [of "''missing''" test_window_1]
    by (simp add: stored_count_def MemoryStore_entry_def SQLiteStore_entry_def
          RedisStore_entry_def redis_lookup_def test_memory_2_def test_sqlite_3_def
          test_redis_empty_def
          test_window_1_def test_window_2_def NewTieredStore_def NewMemoryStore_def)
qed


section \<open>Properties of the limiter\<close>

lemma Check_loop_first_match:
  "Check_loop url_Parse l rs rawURL now u =
     (case first_match url_Parse rs rawURL of
        None \<Rightarrow> (None, l, u)
      | Some r \<Rightarrow> Check_matched l r now u)"
  by (induction rs) (simp_all add: first_match_def)

lemma Check_first_match:
  "first_match url_Parse (resources l) rawURL = Some r \<Longrightarrow>
   Check url_Parse l rawURL now u = Check_matched l r now u"
  by (simp add: Check_def Check_loop_first_match)

lemma Check_no_match:
  "first_match url_Parse (resources l) rawURL = None \<Longrightarrow>
   Check url_Parse l rawURL now u = (None, l, u)"
  by (simp add: Check_def Check_loop_first_match)

lemma Check_matched_success:
  assumes "Increment (store_impl l) (store l) (Name r) (window_of r now) = ((current, None), s')"
  shows "Check_matched l r now u =
           (if sint current > sint (Limit r) then
              (if Strategy r = Block \<or> Strategy r = BlockWithQueue then
                 Some (LimitExceeded
                        \<lparr>Resource = r, Current = current,
                         resetAt = time_Add (Window_BucketStart (Window r) now)
                                     (Window_Duration (Window r))\<rparr>)
               else None,
               l\<lparr>store := s'\<rparr>,
               case onLimitReached l of None \<Rightarrow> u | Some f \<Rightarrow> f r current u)
            else (None, l\<lparr>store := s'\<rparr>, u))"
  using assms by (simp add: Check_matched_def window_of_def Let_def)

lemma Check_matched_store_error:
  assumes "Increment (store_impl l) (store l) (Name r) (window_of r now) = ((current, Some e), s')"
  shows "Check_matched l r now u = (Some (Errorf ''erl: store error: '' e), l\<lparr>store := s'\<rparr>, u)"
  using assms by (simp add: Check_matched_def Let_def)

lemma errors_Is_LimitExceeded: "errors_Is (LimitExceeded x) ErrLimitExceeded"
  by (simp add: errors_Is.simps)

text \<open>
  C9. For a call that matches resource \<open>r\<close> and whose \<open>Increment\<close> succeeds with count
  \<open>current\<close>: \<open>Check\<close> returns an error exactly when the count exceeds the limit and
  the strategy is \<open>Block\<close> or \<open>BlockWithQueue\<close>. With any other strategy value, one of
  the three constants or not, it returns nil. Whenever the count exceeds the limit the
  callback, if there is one, has run with the resource and the count; otherwise the
  caller's state is untouched.
\<close>

theorem Check_error_iff_blocking_strategy_over_limit:
  assumes "first_match url_Parse (resources l) rawURL = Some r"
    and "Increment (store_impl l) (store l) (Name r) (window_of r now) = ((current, None), s')"
  shows "(fst (Check url_Parse l rawURL now u) \<noteq> None
            \<longleftrightarrow> sint current > sint (Limit r)
                \<and> (Strategy r = Block \<or> Strategy r = BlockWithQueue))
         \<and> (Strategy r \<noteq> Block \<and> Strategy r \<noteq> BlockWithQueue
              \<longrightarrow> fst (Check url_Parse l rawURL now u) = None)
         \<and> (sint current > sint (Limit r)
              \<longrightarrow> snd (snd (Check url_Parse l rawURL now u))
                    = (case onLimitReached l of None \<Rightarrow> u | Some f \<Rightarrow> f r current u))
         \<and> (\<not> sint current > sint (Limit r)
              \<longrightarrow> snd (snd (Check url_Parse l rawURL now u)) = u)"
  unfolding Check_first_match [OF assms(1)] Check_matched_success [OF assms(2)]
  by simp



lemma test_first_match:
  "first_match test_url_Parse (resources ((test_limiter strategy)\<lparr>store := s\<rparr>)) test_url
     = Some (test_resource strategy)"
proof -
  have "matchURL test_url_Parse test_url ''api.test.com/*''"
    by code_simp
  then show ?thesis
    by (simp add: first_match_def test_limiter_def Register_def New_def test_resource_def)
qed

lemma test_bucket_key:
  "Window_BucketKey PerMinute test_now_1 = ''2024-01-15T14:30''"
  "Window_BucketKey PerMinute test_now_2 = ''2024-01-15T14:30''"
  by code_simp+

lemma test_bucket_start:
  "Window_BucketStart PerMinute test_now_1 = 1705329000000000000"
  "Window_BucketStart PerMinute test_now_2 = 1705329000000000000"
  by code_simp+

lemma test_Increment:
  "Increment (store_impl ((test_limiter strategy)\<lparr>store := test_memory_api n\<rparr>))
     (store ((test_limiter strategy)\<lparr>store := test_memory_api n\<rparr>))
     (Name (test_resource strategy)) (window_of (test_resource strategy) test_now_1)
   = ((n + 1, None), test_memory_api (n + 1))"
  by (simp add: test_limiter_def Register_def New_def MemoryStore_Store_def test_resource_def
        MemoryStore_Increment_def test_memory_api_def window_of_def test_bucket_key)

theorem Check_error_iff_blocking_strategy_over_limit_witness:
  "first_match test_url_Parse (resources ((test_limiter 7)\<lparr>store := test_memory_api 2\<rparr>)) test_url
     = Some (test_resource 7)
   \<and> sint (2 + 1 :: int64) > sint (Limit (test_resource 7))
   \<and> Strategy (test_resource 7) \<noteq> Block \<and> Strategy (test_resource 7) \<noteq> BlockWithQueue
   \<and> Strategy (test_resource 7) \<noteq> LogOnly
   \<and> fst (Check test_url_Parse ((test_limiter 7)\<lparr>store := test_memory_api 2\<rparr>)
             test_url test_now_1 []) = None
   \<and> snd (snd (Check test_url_Parse ((test_limiter 7)\<lparr>store := test_memory_api 2\<rparr>)
                   test_url test_now_1 [])) = [(''test-api'', 3)]
   \<and> \<not> sint (0 + 1 :: int64) > sint (Limit (test_resource Block))
   \<and> fst (Check test_url_Parse ((test_limiter Block)\<lparr>store := test_memory_api 0\<rparr>)
             test_url test_now_1 []) = None
   \<and> snd (snd (Check test_url_Parse ((test_limiter Block)\<lparr>store := test_memory_api 0\<rparr>)
                   test_url test_now_1 [])) = []
   \<and> fst (Check test_url_Parse ((test_limiter Block)\<lparr>store := test_memory_api 2\<rparr>)
             test_url test_now_1 []) \<noteq> None"
proof -
  have strat: "Strategy (test_resource 7) \<noteq> Block \<and> Strategy (test_resource 7) \<noteq> BlockWithQueue
               \<and> Strategy (test_resource 7) \<noteq> LogOnly"
    by (simp add: test_resource_def Block_def BlockWithQueue_def LogOnly_def)
  have over: "sint (2 + 1 :: int64) > sint (Limit (test_resource s))" for s
    by (simp add: test_resource_def)
  have under: "\<not> sint (0 + 1 :: int64) > sint (Limit (test_resource s))" for s
    by (simp add: test_resource_def)
  have cb: "onLimitReached ((test_limiter s)\<lparr>store := m\<rparr>) = Some test_callback" for s m
    by (simp add: test_limiter_def Register_def New_def)
  note a = Check_error_iff_blocking_strategy_over_limit
             [OF test_first_match [where strategy = 7 and s = "test_memory_api 2"]
                 test_Increment [where strategy = 7 and n = 2], where u = "[]"]
  note b = Check_error_iff_blocking_strategy_over_limit
             [OF test_first_match [where strategy = Block and s = "test_memory_api 0"]
                 test_Increment [where strategy = Block and n = 0], where u = "[]"]
  note c = Check_error_iff_blocking_strategy_over_limit
             [OF test_first_match [where strategy = Block and s = "test_memory_api 2"]
                 test_Increment [where strategy = Block and n = 2], where u = "[]"]
  have blk: "Strategy (test_resource Block) = Block"
    by (simp add: test_resource_def)
  show ?thesis
    using a b c strat over under blk test_first_match [where strategy = 7 and s = "test_memory_api 2"]
    by (simp add: cb test_callback_def) (simp add: test_resource_def)
qed


lemma Check_LimitExceeded_inv:
  assumes "fst (Check url_Parse l rawURL now u) = Some (LimitExceeded x)"
  shows "\<exists>r. first_match url_Parse (resources l) rawURL = Some r
             \<and> snd (fst (Increment (store_impl l) (store l) (Name r) (window_of r now))) = None
             \<and> Resource x = r
             \<and> Current x = fst (fst (Increment (store_impl l) (store l) (Name r) (window_of r now)))
             \<and> resetAt x = time_Add (Window_BucketStart (Window r) now) (Window_Duration (Window r))
             \<and> sint (Current x) > sint (Limit r)
             \<and> (Strategy r = Block \<or> Strategy r = BlockWithQueue)"
proof (cases "first_match url_Parse (resources l) rawURL")
  case None
  with assms show ?thesis
    by (simp add: Check_no_match)
next
  case (Some r)
  obtain current err s' where
    inc: "Increment (store_impl l) (store l) (Name r) (window_of r now) = ((current, err), s')"
    by (metis surj_pair)
  have chk: "fst (Check_matched l r now u) = Some (LimitExceeded x)"
    using assms Some by (simp add: Check_first_match)
  show ?thesis
  proof (cases err)
    case (Some e)
    with chk inc show ?thesis
      by (simp add: Check_matched_store_error)
  next
    case None
    have over: "sint current > sint (Limit r)"
      using chk inc None by (simp add: Check_matched_success split: if_splits)
    have strat: "Strategy r = Block \<or> Strategy r = BlockWithQueue"
      using chk inc None over by (simp add: Check_matched_success split: if_splits)
    have x: "x = \<lparr>Resource = r, Current = current,
                   resetAt = time_Add (Window_BucketStart (Window r) now)
                               (Window_Duration (Window r))\<rparr>"
      using chk inc None over strat by (simp add: Check_matched_success)
    have "first_match url_Parse (resources l) rawURL = Some r
             \<and> snd (fst (Increment (store_impl l) (store l) (Name r) (window_of r now))) = None
             \<and> Resource x = r
             \<and> Current x = fst (fst (Increment (store_impl l) (store l) (Name r) (window_of r now)))
             \<and> resetAt x = time_Add (Window_BucketStart (Window r) now) (Window_Duration (Window r))
             \<and> sint (Current x) > sint (Limit r)
             \<and> (Strategy r = Block \<or> Strategy r = BlockWithQueue)"
      using \<open>first_match url_Parse (resources l) rawURL = Some r\<close> inc None over strat
      by (simp add: x)
    then show ?thesis ..
  qed
qed

text \<open>
  C7. When \<open>Check\<close> matches resource \<open>r\<close>, the count returned by the store exceeds
  the limit and the strategy is \<open>Block\<close> or \<open>BlockWithQueue\<close>, the error returned is
  a \<open>LimitExceededError\<close> that carries \<open>r\<close>, that count, and the bucket start plus the
  window duration as reset instant. Every \<open>LimitExceededError\<close> that \<open>Check\<close> returns
  is of this kind: its resource is the first match for the URL, its count is the one
  the store returned, above the limit, and the strategy is one of the two. Every
  \<open>LimitExceededError\<close> unwraps to the sentinel \<open>ErrLimitExceeded\<close>, so \<open>errors.Is\<close>
  against the sentinel holds whatever the fields are.
\<close>

theorem Check_limit_exceeded_error_contents:
  "(first_match url_Parse (resources l) rawURL = Some r
     \<and> Increment (store_impl l) (store l) (Name r) (window_of r now) = ((current, None), s')
     \<and> sint current > sint (Limit r)
     \<and> (Strategy r = Block \<or> Strategy r = BlockWithQueue)
     \<longrightarrow> fst (Check url_Parse l rawURL now u)
           = Some (LimitExceeded
                    \<lparr>Resource = r, Current = current,
                     resetAt = time_Add (Window_BucketStart (Window r) now)
                                 (Window_Duration (Window r))\<rparr>))
   \<and> (fst (Check url_Parse l rawURL now u) = Some (LimitExceeded x)
       \<longrightarrow> (\<exists>r'. first_match url_Parse (resources l) rawURL = Some r'
                 \<and> snd (fst (Increment (store_impl l) (store l) (Name r') (window_of r' now))) = None
                 \<and> Resource x = r'
                 \<and> Current x
                     = fst (fst (Increment (store_impl l) (store l) (Name r') (window_of r' now)))
                 \<and> resetAt x
                     = time_Add (Window_BucketStart (Window r') now) (Window_Duration (Window r'))
                 \<and> sint (Current x) > sint (Limit r')
                 \<and> (Strategy r' = Block \<or> Strategy r' = BlockWithQueue)))
   \<and> Unwrap (LimitExceeded x) = Some ErrLimitExceeded
   \<and> errors_Is (LimitExceeded x) ErrLimitExceeded"
proof (intro conjI impI)
  assume a: "first_match url_Parse (resources l) rawURL = Some r
     \<and> Increment (store_impl l) (store l) (Name r) (window_of r now) = ((current, None), s')
     \<and> sint current > sint (Limit r)
     \<and> (Strategy r = Block \<or> Strategy r = BlockWithQueue)"
  then have m: "first_match url_Parse (resources l) rawURL = Some r"
    and i: "Increment (store_impl l) (store l) (Name r) (window_of r now) = ((current, None), s')"
    and o: "sint current > sint (Limit r)"
    and s: "Strategy r = Block \<or> Strategy r = BlockWithQueue"
    by blast+
  show "fst (Check url_Parse l rawURL now u)
          = Some (LimitExceeded
                   \<lparr>Resource = r, Current = current,
                    resetAt = time_Add (Window_BucketStart (Window r) now)
                                (Window_Duration (Window r))\<rparr>)"
    using o s unfolding Check_first_match [OF m] Check_matched_success [OF i]
    by simp
next
  assume "fst (Check url_Parse l rawURL now u) = Some (LimitExceeded x)"
  then show "\<exists>r'. first_match url_Parse (resources l) rawURL = Some r'
                 \<and> snd (fst (Increment (store_impl l) (store l) (Name r') (window_of r' now))) = None
                 \<and> Resource x = r'
                 \<and> Current x
                     = fst (fst (Increment (store_impl l) (store l) (Name r') (window_of r' now)))
                 \<and> resetAt x
                     = time_Add (Window_BucketStart (Window r') now) (Window_Duration (Window r'))
                 \<and> sint (Current x) > sint (Limit r')
                 \<and> (Strategy r' = Block \<or> Strategy r' = BlockWithQueue)"
    by (rule Check_LimitExceeded_inv)
next
  show "Unwrap (LimitExceeded x) = Some ErrLimitExceeded"
    by simp
next
  show "errors_Is (LimitExceeded x) ErrLimitExceeded"
    by (rule errors_Is_LimitExceeded)
qed

theorem Check_limit_exceeded_error_contents_witness:
  "first_match test_url_Parse
       (resources ((test_limiter BlockWithQueue)\<lparr>store := test_memory_api 2\<rparr>)) test_url
     = Some (test_resource BlockWithQueue)
   \<and> sint (2 + 1 :: int64) > sint (Limit (test_resource BlockWithQueue))
   \<and> Strategy (test_resource BlockWithQueue) = BlockWithQueue
   \<and> fst (Check test_url_Parse ((test_limiter BlockWithQueue)\<lparr>store := test_memory_api 2\<rparr>)
             test_url test_now_1 [])
       = Some (LimitExceeded \<lparr>Resource = test_resource BlockWithQueue, Current = 3,
                              resetAt = 1705329060000000000\<rparr>)
   \<and> fst (Check test_url_Parse ((test_limiter Block)\<lparr>store := test_memory_api 2\<rparr>)
             test_url test_now_1 [])
       = Some (LimitExceeded \<lparr>Resource = test_resource Block, Current = 3,
                              resetAt = 1705329060000000000\<rparr>)
   \<and> errors_Is (LimitExceeded \<lparr>Resource = test_resource Block, Current = 3,
                                 resetAt = 1705329060000000000\<rparr>) ErrLimitExceeded"
proof -
  have over: "sint (2 + 1 :: int64) > sint (Limit (test_resource s))" for s
    by (simp add: test_resource_def)
  have strat: "Strategy (test_resource s) = s" for s
    by (simp add: test_resource_def)
  have reset: "time_Add (Window_BucketStart (Window (test_resource s)) test_now_1)
                 (Window_Duration (Window (test_resource s))) = 1705329060000000000" for s
    by (simp add: test_resource_def test_bucket_start time_Add_def Window_Duration_def
          Minute_def Second_def)
  have three: "(2 + 1 :: int64) = 3"
    by simp
  have res: "fst (Check test_url_Parse ((test_limiter s)\<lparr>store := test_memory_api 2\<rparr>)
                    test_url test_now_1 [])
               = Some (LimitExceeded \<lparr>Resource = test_resource s, Current = 3,
                                      resetAt = 1705329060000000000\<rparr>)"
    if "s = Block \<or> s = BlockWithQueue" for s
  proof -
    have prem: "first_match test_url_Parse
                  (resources ((test_limiter s)\<lparr>store := test_memory_api 2\<rparr>)) test_url
                  = Some (test_resource s)
                \<and> Increment (store_impl ((test_limiter s)\<lparr>store := test_memory_api 2\<rparr>))
                      (store ((test_limiter s)\<lparr>store := test_memory_api 2\<rparr>))
                      (Name (test_resource s)) (window_of (test_resource s) test_now_1)
                    = ((2 + 1, None), test_memory_api (2 + 1))
                \<and> sint (2 + 1 :: int64) > sint (Limit (test_resource s))
                \<and> (Strategy (test_resource s) = Block
                    \<or> Strategy (test_resource s) = BlockWithQueue)"
      using test_first_match [where strategy = s and s = "test_memory_api 2"]
        test_Increment [where strategy = s and n = 2] over [of s] that
      by (simp only: strat)
    from Check_limit_exceeded_error_contents
           [where x = undefined and u = "[]", THEN conjunct1, THEN mp, OF prem]
    show ?thesis
      by (simp only: reset three)
  qed
  have is_a: "errors_Is (LimitExceeded \<lparr>Resource = test_resource Block, Current = 3,
                                         resetAt = 1705329060000000000\<rparr>) ErrLimitExceeded"
    by (rule Check_limit_exceeded_error_contents
               [where l = "(test_limiter Block)\<lparr>store := test_memory_api 2\<rparr>"
                  and u = "[]" and url_Parse = test_url_Parse and r = "test_resource Block"
                  and s' = "test_memory_api 3" and rawURL = test_url and now = test_now_1
                  and current = 3,
                THEN conjunct2, THEN conjunct2, THEN conjunct2])
  show ?thesis
    using test_first_match [where strategy = BlockWithQueue and s = "test_memory_api 2"]
      over [of BlockWithQueue] strat [of BlockWithQueue] res [of BlockWithQueue] res [of Block]
      is_a
    by (intro conjI) simp_all
qed


subsection \<open>Sequential calls in one bucket\<close>

lemma implements_counting_Memory:
  "implements_counting MemoryStore_Store (\<lambda>m. True) MemoryStore_entry"
  by (simp add: implements_counting_def MemoryStore_Store_def MemoryStore_Increment_result
        MemoryStore_Increment_entry)

lemma implements_counting_SQLite:
  "implements_counting SQLiteStore_Store (\<lambda>s. sql_faults s = []) SQLiteStore_entry"
  by (simp add: implements_counting_def SQLiteStore_Store_def SQLiteStore_Increment_result
        SQLiteStore_Increment_entry SQLiteStore_Increment_faults)

lemma implements_counting_Tiered:
  assumes "implements_counting P ok entry"
  shows "implements_counting (TieredStore_Store P) (\<lambda>t. ok (persistent t))
           (\<lambda>t. entry (persistent t))"
  unfolding implements_counting_def
proof (intro allI impI)
  fix t :: "'a TieredStore" and key :: string and w :: store_Window
  assume pre: "ok (persistent t) \<and> entry (persistent t) key \<noteq> Some (MaxInt64, BucketKey w)"
  let ?c = "next_count (entry (persistent t) key) w"
  let ?p' = "snd (Increment P (persistent t) key w)"
  from assms pre have res: "fst (Increment P (persistent t) key w) = (?c, None)"
    and ok': "ok ?p'" and e': "entry ?p' key = Some (?c, BucketKey w)"
    unfolding implements_counting_def by blast+
  from res have "Increment P (persistent t) key w = ((?c, None), ?p')"
    by (metis prod.collapse)
  from TieredStore_Increment_success [OF this] ok' e'
  show "fst (Increment (TieredStore_Store P) t key w) = (?c, None)
        \<and> ok (persistent (snd (Increment (TieredStore_Store P) t key w)))
        \<and> entry (persistent (snd (Increment (TieredStore_Store P) t key w))) key
            = Some (?c, BucketKey w)"
    by (simp add: TieredStore_Store_def)
qed

lemma sint_of_nat_int64: "n < 2 ^ 63 \<Longrightarrow> sint (of_nat n :: int64) = int n"
  by (simp add: signed_of_nat signed_take_bit_int_eq_self)

lemma of_nat_not_MaxInt64:
  assumes "Suc j < 2 ^ 63"
  shows "(of_nat j :: int64) \<noteq> MaxInt64"
proof
  assume "(of_nat j :: int64) = MaxInt64"
  then have "sint (of_nat j :: int64) = sint MaxInt64"
    by simp
  moreover have "sint (of_nat j :: int64) = int j"
    using assms by (simp add: sint_of_nat_int64)
  moreover have "sint MaxInt64 = 2 ^ 63 - 1"
    by (simp add: MaxInt64_def)
  ultimately show False
    using assms by simp
qed

lemma counted_next_count:
  assumes "counted_in_bucket k j stored" and "BucketKey w = k"
  shows "next_count stored w = of_nat (Suc j)"
  using assms
  by (cases "j = 0") (auto simp: counted_in_bucket_def next_count_def split: option.splits)

lemma counted_not_full:
  assumes "counted_in_bucket k j stored" and "BucketKey w = k" and "Suc j < 2 ^ 63"
  shows "stored \<noteq> Some (MaxInt64, BucketKey w)"
  using assms of_nat_not_MaxInt64 [OF assms(3)]
  by (cases "j = 0") (auto simp: counted_in_bucket_def)

lemma nth_call_effect_store [simp]:
  "nth_call_effect (l\<lparr>store := s\<rparr>) r n u = nth_call_effect l r n u"
  by (simp add: nth_call_effect_def)

lemma Check_counted_step:
  assumes cnt: "implements_counting (store_impl l) ok entry"
    and ok: "ok (store l)"
    and st: "counted_in_bucket k j (entry (store l) (Name r))"
    and m: "first_match url_Parse (resources l) rawURL = Some r"
    and bk: "Window_BucketKey (Window r) now = k"
    and bound: "Suc j < 2 ^ 63"
  shows "\<exists>s'. Check url_Parse l rawURL now u
                 = (nth_call_result r (Suc j) now, l\<lparr>store := s'\<rparr>, nth_call_effect l r (Suc j) u)
              \<and> ok s' \<and> counted_in_bucket k (Suc j) (entry s' (Name r))"
proof -
  let ?w = "window_of r now"
  let ?s' = "snd (Increment (store_impl l) (store l) (Name r) ?w)"
  have w: "BucketKey ?w = k"
    using bk by (simp add: window_of_def)
  have nf: "entry (store l) (Name r) \<noteq> Some (MaxInt64, BucketKey ?w)"
    by (rule counted_not_full [OF st w bound])
  have nc: "next_count (entry (store l) (Name r)) ?w = of_nat (Suc j)"
    by (rule counted_next_count [OF st w])
  from cnt ok nf have res: "fst (Increment (store_impl l) (store l) (Name r) ?w)
                              = (next_count (entry (store l) (Name r)) ?w, None)"
    and ok': "ok ?s'"
    and e': "entry ?s' (Name r) = Some (next_count (entry (store l) (Name r)) ?w, BucketKey ?w)"
    unfolding implements_counting_def by blast+
  from res nc have inc: "Increment (store_impl l) (store l) (Name r) ?w
                           = ((of_nat (Suc j), None), ?s')"
    by (metis prod.collapse)
  have si: "sint (of_nat (Suc j) :: int64) = int (Suc j)"
    using bound by (rule sint_of_nat_int64)
  have "Check url_Parse l rawURL now u
          = (nth_call_result r (Suc j) now, l\<lparr>store := ?s'\<rparr>, nth_call_effect l r (Suc j) u)"
    unfolding Check_first_match [OF m] Check_matched_success [OF inc] si
      nth_call_result_def nth_call_effect_def
    by (simp del: of_nat_Suc)
  moreover have "counted_in_bucket k (Suc j) (entry ?s' (Name r))"
    using e' nc w by (simp add: counted_in_bucket_def del: of_nat_Suc)
  ultimately show ?thesis
    using ok' by blast
qed

lemma Check_all_counted:
  assumes "implements_counting (store_impl l) ok entry"
    and "ok (store l)"
    and "counted_in_bucket k j (entry (store l) (Name r))"
    and "\<forall>c\<in>set calls. first_match url_Parse (resources l) (fst c) = Some r
                         \<and> Window_BucketKey (Window r) (snd c) = k"
    and "j + length calls < 2 ^ 63"
  shows "fst (Check_all url_Parse l calls u)
           = map (\<lambda>i. nth_call_result r (j + Suc i) (snd (calls ! i))) [0..<length calls]
         \<and> snd (snd (Check_all url_Parse l calls u))
           = fold (nth_call_effect l r) [Suc j..<Suc (j + length calls)] u"
  using assms
proof (induction calls arbitrary: l u j)
  case Nil
  show ?case by simp
next
  case (Cons c calls)
  obtain rawURL now where c: "c = (rawURL, now)"
    by (cases c)
  have m: "first_match url_Parse (resources l) rawURL = Some r"
    and bk: "Window_BucketKey (Window r) now = k"
    using Cons.prems(4) c by simp_all
  have bound: "Suc j < 2 ^ 63"
    using Cons.prems(5) by simp
  from Check_counted_step [OF Cons.prems(1,2,3) m bk bound, of u]
  obtain s' where
    step: "Check url_Parse l rawURL now u
             = (nth_call_result r (Suc j) now, l\<lparr>store := s'\<rparr>, nth_call_effect l r (Suc j) u)"
    and ok': "ok s'" and st': "counted_in_bucket k (Suc j) (entry s' (Name r))"
    by blast
  let ?l' = "l\<lparr>store := s'\<rparr>"
  let ?u' = "nth_call_effect l r (Suc j) u"
  have ih: "fst (Check_all url_Parse ?l' calls ?u')
              = map (\<lambda>i. nth_call_result r (Suc j + Suc i) (snd (calls ! i))) [0..<length calls]
            \<and> snd (snd (Check_all url_Parse ?l' calls ?u'))
              = fold (nth_call_effect ?l' r) [Suc (Suc j)..<Suc (Suc j + length calls)] ?u'"
  proof (rule Cons.IH)
    show "implements_counting (store_impl ?l') ok entry"
      using Cons.prems(1) by simp
    show "ok (store ?l')"
      using ok' by simp
    show "counted_in_bucket k (Suc j) (entry (store ?l') (Name r))"
      using st' by simp
    show "\<forall>c\<in>set calls. first_match url_Parse (resources ?l') (fst c) = Some r
                           \<and> Window_BucketKey (Window r) (snd c) = k"
      using Cons.prems(4) by simp
    show "Suc j + length calls < 2 ^ 63"
      using Cons.prems(5) by simp
  qed
  have eff: "nth_call_effect ?l' r = nth_call_effect l r"
    by (rule ext)+ simp
  have results: "fst (Check_all url_Parse l (c # calls) u)
                   = nth_call_result r (Suc j) now
                     # map (\<lambda>i. nth_call_result r (Suc j + Suc i) (snd (calls ! i)))
                         [0..<length calls]"
    using step ih by (simp add: c case_prod_beta)
  have "map (\<lambda>i. nth_call_result r (j + Suc i) (snd ((c # calls) ! i))) [0..<length (c # calls)]
          = nth_call_result r (Suc j) now
            # map (\<lambda>i. nth_call_result r (Suc j + Suc i) (snd (calls ! i))) [0..<length calls]"
    by (simp add: c map_upt_Suc del: upt_Suc)
  with results have one: "fst (Check_all url_Parse l (c # calls) u)
      = map (\<lambda>i. nth_call_result r (j + Suc i) (snd ((c # calls) ! i))) [0..<length (c # calls)]"
    by simp
  have "[Suc j..<Suc (j + length (c # calls))]
          = Suc j # [Suc (Suc j)..<Suc (Suc j + length calls)]"
    by (simp add: upt_conv_Cons del: upt_Suc)
  then have two: "snd (snd (Check_all url_Parse l (c # calls) u))
      = fold (nth_call_effect l r) [Suc j..<Suc (j + length (c # calls))] u"
    using step ih eff by (simp add: c case_prod_beta del: upt_Suc)
  from one two show ?case ..
qed


text \<open>
  C1. A limiter whose store counts, with no counter yet for the resource \<open>r\<close> in the
  bucket \<open>k\<close>; \<open>N\<close> sequential calls (fewer than \<open>2^63\<close>), each with a URL whose first match
  is \<open>r\<close> and at a time in bucket \<open>k\<close>. Then call number \<open>n\<close> returns nil when \<open>n\<close> is at most
  the limit; past the limit it returns the limit-exceeded error for \<open>r\<close> with count \<open>n\<close>
  under \<open>Block\<close> and \<open>BlockWithQueue\<close>; under \<open>LogOnly\<close> every call returns nil. In
  all cases the callback has run, in order, once for each call past the limit, with \<open>r\<close>
  and the count of that call.
\<close>

theorem Check_sequence_in_one_bucket:
  assumes "implements_counting (store_impl l) ok entry"
    and "ok (store l)"
    and "map_option snd (entry (store l) (Name r)) \<noteq> Some k"
    and "\<forall>c\<in>set calls. first_match url_Parse (resources l) (fst c) = Some r
                         \<and> Window_BucketKey (Window r) (snd c) = k"
    and "length calls < 2 ^ 63"
  shows "length (fst (Check_all url_Parse l calls u)) = length calls
         \<and> (\<forall>i<length calls.
              (int (Suc i) \<le> sint (Limit r)
                \<longrightarrow> fst (Check_all url_Parse l calls u) ! i = None)
              \<and> (sint (Limit r) < int (Suc i)
                  \<and> (Strategy r = Block \<or> Strategy r = BlockWithQueue)
                \<longrightarrow> fst (Check_all url_Parse l calls u) ! i
                      = Some (LimitExceeded
                               \<lparr>Resource = r, Current = of_nat (Suc i),
                                resetAt = time_Add (Window_BucketStart (Window r) (snd (calls ! i)))
                                            (Window_Duration (Window r))\<rparr>))
              \<and> (Strategy r = LogOnly
                \<longrightarrow> fst (Check_all url_Parse l calls u) ! i = None))
         \<and> snd (snd (Check_all url_Parse l calls u))
             = fold (\<lambda>n u. if int n \<le> sint (Limit r) then u
                           else case onLimitReached l of None \<Rightarrow> u | Some f \<Rightarrow> f r (of_nat n) u)
                 [1..<Suc (length calls)] u"
proof -
  have start: "counted_in_bucket k 0 (entry (store l) (Name r))"
    using assms(3) by (simp add: counted_in_bucket_def)
  have bound: "0 + length calls < 2 ^ 63"
    using assms(5) by simp
  from Check_all_counted [OF assms(1,2) start assms(4) bound, of u]
  have results: "fst (Check_all url_Parse l calls u)
                   = map (\<lambda>i. nth_call_result r (Suc i) (snd (calls ! i))) [0..<length calls]"
    and effect: "snd (snd (Check_all url_Parse l calls u))
                   = fold (nth_call_effect l r) [Suc 0..<Suc (length calls)] u"
    by simp_all
  have len: "length (fst (Check_all url_Parse l calls u)) = length calls"
    by (simp add: results)
  have nth: "fst (Check_all url_Parse l calls u) ! i = nth_call_result r (Suc i) (snd (calls ! i))"
    if "i < length calls" for i
    using that by (simp add: results)
  have log_only: "Strategy r = LogOnly \<Longrightarrow> nth_call_result r n now = None" for n now
    by (simp add: nth_call_result_def LogOnly_def Block_def BlockWithQueue_def)
  have each: "\<forall>i<length calls.
              (int (Suc i) \<le> sint (Limit r)
                \<longrightarrow> fst (Check_all url_Parse l calls u) ! i = None)
              \<and> (sint (Limit r) < int (Suc i)
                  \<and> (Strategy r = Block \<or> Strategy r = BlockWithQueue)
                \<longrightarrow> fst (Check_all url_Parse l calls u) ! i
                      = Some (LimitExceeded
                               \<lparr>Resource = r, Current = of_nat (Suc i),
                                resetAt = time_Add (Window_BucketStart (Window r) (snd (calls ! i)))
                                            (Window_Duration (Window r))\<rparr>))
              \<and> (Strategy r = LogOnly
                \<longrightarrow> fst (Check_all url_Parse l calls u) ! i = None)"
  proof (intro allI impI conjI)
    fix i
    assume "i < length calls" and "int (Suc i) \<le> sint (Limit r)"
    then show "fst (Check_all url_Parse l calls u) ! i = None"
      by (simp add: nth nth_call_result_def)
  next
    fix i
    assume "i < length calls"
      and "sint (Limit r) < int (Suc i) \<and> (Strategy r = Block \<or> Strategy r = BlockWithQueue)"
    then show "fst (Check_all url_Parse l calls u) ! i
                 = Some (LimitExceeded
                          \<lparr>Resource = r, Current = of_nat (Suc i),
                           resetAt = time_Add (Window_BucketStart (Window r) (snd (calls ! i)))
                                       (Window_Duration (Window r))\<rparr>)"
      by (simp add: nth nth_call_result_def del: of_nat_Suc)
  next
    fix i
    assume "i < length calls" and "Strategy r = LogOnly"
    then show "fst (Check_all url_Parse l calls u) ! i = None"
      by (simp add: nth log_only)
  qed
  have "nth_call_effect l r
          = (\<lambda>n u. if int n \<le> sint (Limit r) then u
                    else case onLimitReached l of None \<Rightarrow> u | Some f \<Rightarrow> f r (of_nat n) u)"
    by (rule ext)+ (simp add: nth_call_effect_def)
  with effect have eff: "snd (snd (Check_all url_Parse l calls u))
             = fold (\<lambda>n u. if int n \<le> sint (Limit r) then u
                           else case onLimitReached l of None \<Rightarrow> u | Some f \<Rightarrow> f r (of_nat n) u)
                 [1..<Suc (length calls)] u"
    by simp
  from len each eff show ?thesis
    by (intro conjI)
qed

theorem Check_sequence_in_one_bucket_witness:
  "first_match test_url_Parse (resources (test_limiter Block)) test_url = Some (test_resource Block)
   \<and> Window_BucketKey (Window (test_resource Block)) test_now_1 = ''2024-01-15T14:30''
   \<and> Window_BucketKey (Window (test_resource Block)) test_now_2 = ''2024-01-15T14:30''
   \<and> MemoryStore_entry (store (test_limiter Block)) (Name (test_resource Block)) = None
   \<and> sint (Limit (test_resource Block)) = 2
   \<and> length test_calls = 4
   \<and> fst (Check_all test_url_Parse (test_limiter Block) test_calls []) ! 0 = None
   \<and> fst (Check_all test_url_Parse (test_limiter Block) test_calls []) ! 1 = None
   \<and> fst (Check_all test_url_Parse (test_limiter Block) test_calls []) ! 2
       = Some (LimitExceeded \<lparr>Resource = test_resource Block, Current = 3,
                              resetAt = 1705329060000000000\<rparr>)
   \<and> fst (Check_all test_url_Parse (test_limiter BlockWithQueue) test_calls []) ! 3
       = Some (LimitExceeded \<lparr>Resource = test_resource BlockWithQueue, Current = 4,
                              resetAt = 1705329060000000000\<rparr>)
   \<and> fst (Check_all test_url_Parse (test_limiter LogOnly) test_calls []) ! 0 = None
   \<and> fst (Check_all test_url_Parse (test_limiter LogOnly) test_calls []) ! 3 = None
   \<and> snd (snd (Check_all test_url_Parse (test_limiter LogOnly) test_calls []))
       = [(''test-api'', 3), (''test-api'', 4)]"
proof -
  have lim: "(test_limiter s)\<lparr>store := NewMemoryStore\<rparr> = test_limiter s" for s
    by (simp add: test_limiter_def Register_def New_def)
  have fm: "first_match test_url_Parse (resources (test_limiter s)) test_url
              = Some (test_resource s)" for s
    using test_first_match [where strategy = s and s = NewMemoryStore] by (simp only: lim)
  have k: "Window_BucketKey (Window (test_resource s)) test_now_1 = ''2024-01-15T14:30''"
          "Window_BucketKey (Window (test_resource s)) test_now_2 = ''2024-01-15T14:30''" for s
    by (simp_all add: test_resource_def test_bucket_key)
  have h1: "implements_counting (store_impl (test_limiter s)) (\<lambda>m. True) MemoryStore_entry" for s
    using implements_counting_Memory by (simp add: test_limiter_def Register_def New_def)
  have fresh: "MemoryStore_entry (store (test_limiter s)) (Name (test_resource s)) = None" for s
    by (simp add: test_limiter_def Register_def New_def NewMemoryStore_def MemoryStore_entry_def)
  have h3: "map_option snd (MemoryStore_entry (store (test_limiter s)) (Name (test_resource s)))
              \<noteq> Some ''2024-01-15T14:30''" for s
    by (simp only: fresh) simp
  have h4: "\<forall>c\<in>set test_calls.
              first_match test_url_Parse (resources (test_limiter s)) (fst c) = Some (test_resource s)
              \<and> Window_BucketKey (Window (test_resource s)) (snd c) = ''2024-01-15T14:30''" for s
    using fm [of s] k [of s] by (simp add: test_calls_def)
  have len: "length test_calls = 4"
    by (simp add: test_calls_def)
  have h5: "length test_calls < 2 ^ 63"
    by (simp add: len)
  have L: "sint (Limit (test_resource s)) = 2" for s
    by (simp add: test_resource_def)
  have strat: "Strategy (test_resource s) = s" for s
    by (simp add: test_resource_def)
  have cb: "onLimitReached (test_limiter s) = Some test_callback" for s
    by (simp add: test_limiter_def Register_def New_def)
  have reset: "time_Add (Window_BucketStart (Window (test_resource s)) (snd (test_calls ! i)))
                 (Window_Duration (Window (test_resource s))) = 1705329060000000000"
    if "i < 4" for s i
  proof -
    have "snd (test_calls ! i) = test_now_1 \<or> snd (test_calls ! i) = test_now_2"
      using that by (cases i rule: nat.exhaust; simp add: test_calls_def less_Suc_eq numeral_eq_Suc)
        (auto simp: nth_Cons split: nat.splits)
    then show ?thesis
      by (auto simp add: test_resource_def test_bucket_start time_Add_def Window_Duration_def
            Minute_def Second_def)
  qed
  note b = Check_sequence_in_one_bucket
             [OF h1 [of Block] TrueI h3 [of Block] h4 [of Block] h5, of "[]"]
  note q = Check_sequence_in_one_bucket
             [OF h1 [of BlockWithQueue] TrueI h3 [of BlockWithQueue] h4 [of BlockWithQueue] h5,
              of "[]"]
  note g = Check_sequence_in_one_bucket
             [OF h1 [of LogOnly] TrueI h3 [of LogOnly] h4 [of LogOnly] h5, of "[]"]
  have r0: "fst (Check_all test_url_Parse (test_limiter Block) test_calls []) ! 0 = None"
    using b [THEN conjunct2, THEN conjunct1, rule_format, of 0] by (simp add: len L)
  have r1: "fst (Check_all test_url_Parse (test_limiter Block) test_calls []) ! 1 = None"
    using b [THEN conjunct2, THEN conjunct1, rule_format, of 1] by (simp add: len L)
  have r2: "fst (Check_all test_url_Parse (test_limiter Block) test_calls []) ! 2
              = Some (LimitExceeded \<lparr>Resource = test_resource Block, Current = 3,
                                     resetAt = 1705329060000000000\<rparr>)"
    using b [THEN conjunct2, THEN conjunct1, rule_format, of 2] reset [of 2 Block]
    by (simp add: len L strat)
  have r3: "fst (Check_all test_url_Parse (test_limiter BlockWithQueue) test_calls []) ! 3
              = Some (LimitExceeded \<lparr>Resource = test_resource BlockWithQueue, Current = 4,
                                     resetAt = 1705329060000000000\<rparr>)"
    using q [THEN conjunct2, THEN conjunct1, rule_format, of 3] reset [of 3 BlockWithQueue]
    by (simp add: len L strat)
  have q0: "fst (Check_all test_url_Parse (test_limiter LogOnly) test_calls []) ! 0 = None"
    using g [THEN conjunct2, THEN conjunct1, rule_format, of 0] by (simp add: len L strat)
  have q3: "fst (Check_all test_url_Parse (test_limiter LogOnly) test_calls []) ! 3 = None"
    using g [THEN conjunct2, THEN conjunct1, rule_format, of 3] by (simp add: len L strat)
  have upt: "[Suc 0..<5] = [1, 2, 3, 4 :: nat]"
    by code_simp
  have log: "snd (snd (Check_all test_url_Parse (test_limiter LogOnly) test_calls []))
               = [(''test-api'', 3), (''test-api'', 4)]"
    using g [THEN conjunct2, THEN conjunct2]
    by (simp add: len L cb upt test_callback_def) (simp add: test_resource_def)
  from fm [of Block] k [of Block] fresh [of Block] L [of Block] len r0 r1 r2 r3 q0 q3 log
  show ?thesis
    by (intro conjI)
qed



section \<open>Properties of the windows\<close>

subsection \<open>The calendar\<close>



lemma div_mod_unique:
  fixes a k q r :: int
  assumes "a = k * q + r" "0 \<le> r" "r < k"
  shows "a div k = q" "a mod k = r"
proof -
  have k: "0 < k" using assms by simp
  show "a div k = q"
    using assms by (simp add: div_pos_pos_trivial)
  show "a mod k = r"
    using assms by (simp add: mod_pos_pos_trivial)
qed

lemma cycle_parts_unique:
  assumes z: "z = 146097 * a + 36524 * b + 1461 * c + 365 * e + f"
    and b: "0 \<le> b" "b \<le> 3" and c: "0 \<le> c" "c \<le> 24" and e: "0 \<le> e" "e \<le> 3"
    and f: "0 \<le> f" "f \<le> 364"
  shows "cycle_parts z = (a, b, c, e, f)"
proof -
  let ?d3 = "365 * e + f"
  let ?d2 = "1461 * c + ?d3"
  let ?d1 = "36524 * b + ?d2"
  have d3': "?d3 \<le> 1459" using e f by simp
  have d3: "0 \<le> ?d3" "?d3 < 1461" using e f d3' by simp_all
  have d2': "?d2 \<le> 36523" using c d3' by simp
  have d2: "0 \<le> ?d2" "?d2 < 36524" using c d3 d2' by simp_all
  have d1: "0 \<le> ?d1" "?d1 < 146097" using b d2 d2' by simp_all
  have z1: "z = 146097 * a + ?d1" using z by simp
  have n400: "z div 146097 = a" and m1: "z mod 146097 = ?d1"
    using div_mod_unique [OF z1 d1] by simp_all
  have n100: "?d1 div 36524 = b" and m2: "?d1 mod 36524 = ?d2"
    using div_mod_unique [OF refl d2, of b] by simp_all
  have n4: "?d2 div 1461 = c" and m3: "?d2 mod 1461 = ?d3"
    using div_mod_unique [OF refl d3, of c] by simp_all
  have n1: "?d3 div 365 = e"
    using div_mod_unique(1) [OF refl f(1), of 365 e] f(2) by simp
  have "cycle_parts z = (a, min 3 b, (?d1 - 36524 * min 3 b) div 1461,
          min 3 (((?d1 - 36524 * min 3 b) mod 1461) div 365),
          ((?d1 - 36524 * min 3 b) mod 1461) - 365 * min 3 (((?d1 - 36524 * min 3 b) mod 1461) div 365))"
    unfolding cycle_parts_def Let_def n400 m1 n100 ..
  also have "min 3 b = b" using b by simp
  also have "?d1 - 36524 * b = ?d2" by simp
  finally show ?thesis
    using e by (simp only: n4 m3 n1) simp
qed


lemma div_bounds:
  fixes x k :: int
  assumes "0 < k"
  shows "k * (x div k) \<le> x" "x < k * (x div k) + k"
  using mult_div_mod_eq [of k x] pos_mod_sign [OF assms, of x] pos_mod_bound [OF assms, of x]
  by linarith+

lemma clamped_step:
  fixes x k hi :: int
  assumes "0 < k" "0 \<le> x" "x \<le> 4 * k"
  shows "0 \<le> min 3 (x div k)" "min 3 (x div k) \<le> 3"
    "0 \<le> x - k * min 3 (x div k)" "x - k * min 3 (x div k) \<le> k"
proof -
  define q where "q = x div k"
  have q0: "0 \<le> q"
    using assms by (simp add: q_def pos_imp_zdiv_nonneg_iff)
  have lo: "k * q \<le> x" and hi: "x < k * q + k"
    using div_bounds [OF assms(1), of x] by (simp_all add: q_def)
  show "0 \<le> min 3 (x div k)" "min 3 (x div k) \<le> 3"
    using q0 by (simp_all add: q_def)
  show "0 \<le> x - k * min 3 (x div k)"
  proof (cases "q \<le> 3")
    case True
    then show ?thesis using lo by (simp add: q_def [symmetric] min_def)
  next
    case False
    then have "k * 3 \<le> k * q" using assms(1) by simp
    with False lo show ?thesis by (simp add: q_def [symmetric] min_def)
  qed
  show "x - k * min 3 (x div k) \<le> k"
  proof (cases "q \<le> 3")
    case True
    then show ?thesis using hi by (simp add: q_def [symmetric] min_def)
  next
    case False
    then show ?thesis using assms(3) by (simp add: q_def [symmetric] min_def)
  qed
qed

lemma century_step:
  fixes d1 :: int
  assumes "0 \<le> d1" "d1 \<le> 146096"
  shows "0 \<le> min 3 (d1 div 36524)" "min 3 (d1 div 36524) \<le> 3"
    "0 \<le> d1 - 36524 * min 3 (d1 div 36524)" "d1 - 36524 * min 3 (d1 div 36524) \<le> 36524"
  using clamped_step [of 36524 d1] assms by simp_all

lemma cycle4_step:
  fixes d2 :: int
  assumes "0 \<le> d2" "d2 \<le> 36524"
  shows "0 \<le> d2 div 1461" "d2 div 1461 \<le> 24" "0 \<le> d2 mod 1461" "d2 mod 1461 \<le> 1460"
proof -
  show "0 \<le> d2 div 1461"
    using assms by (simp add: pos_imp_zdiv_nonneg_iff)
  have "d2 < 1461 * 25" using assms by simp
  then have "d2 div 1461 < 25" by (simp add: div_less_iff_less_mult)
  then show "d2 div 1461 \<le> 24" by simp
  show "0 \<le> d2 mod 1461" by simp
  have "d2 mod 1461 < 1461" by simp
  then show "d2 mod 1461 \<le> 1460" by linarith
qed

lemma year_step:
  fixes d3 :: int
  assumes "0 \<le> d3" "d3 \<le> 1460"
  shows "0 \<le> min 3 (d3 div 365)" "min 3 (d3 div 365) \<le> 3"
    "0 \<le> d3 - 365 * min 3 (d3 div 365)" "d3 - 365 * min 3 (d3 div 365) \<le> 365"
  using clamped_step [of 365 d3] assms by simp_all

lemma cycle_parts_sum:
  assumes "cycle_parts z = (a, b, c, e, f)"
  shows "z = 146097 * a + 36524 * b + 1461 * c + 365 * e + f"
    and "0 \<le> b \<and> b \<le> 3" and "0 \<le> c \<and> c \<le> 24" and "0 \<le> e \<and> e \<le> 3"
    and "0 \<le> f \<and> f \<le> 365"
proof -
  define d1 where "d1 = z mod 146097"
  define d2 where "d2 = d1 - 36524 * min 3 (d1 div 36524)"
  define d3 where "d3 = d2 mod 1461"
  have "cycle_parts z
          = (z div 146097, min 3 (d1 div 36524), d2 div 1461, min 3 (d3 div 365),
             d3 - 365 * min 3 (d3 div 365))"
    unfolding cycle_parts_def Let_def d1_def d2_def d3_def ..
  with assms have eq: "(a, b, c, e, f)
          = (z div 146097, min 3 (d1 div 36524), d2 div 1461, min 3 (d3 div 365),
             d3 - 365 * min 3 (d3 div 365))"
    by (rule trans [OF sym])
  have a: "a = z div 146097" and b: "b = min 3 (d1 div 36524)"
    and c: "c = d2 div 1461" and e: "e = min 3 (d3 div 365)"
    using eq by (simp_all only: prod.inject)
  have f: "f = d3 - 365 * e"
    using eq unfolding e by (simp only: prod.inject)
  have r1: "0 \<le> d1" "d1 \<le> 146096"
    by (simp_all add: d1_def)
  note cs = century_step [OF r1]
  have r2: "0 \<le> d2" "d2 \<le> 36524"
    using cs(3,4) by (simp_all add: d2_def)
  note c4 = cycle4_step [OF r2]
  have r3: "0 \<le> d3" "d3 \<le> 1460"
    using c4(3,4) by (simp_all add: d3_def)
  note ys = year_step [OF r3]
  show "0 \<le> b \<and> b \<le> 3" using cs(1,2) b by simp
  show "0 \<le> c \<and> c \<le> 24" using c4(1,2) c by simp
  show "0 \<le> e \<and> e \<le> 3" using ys(1,2) e by simp
  show "0 \<le> f \<and> f \<le> 365" using ys(3,4) e f by simp
  have s1: "z = 146097 * a + d1"
    by (simp add: a d1_def)
  have s2: "d1 = 36524 * b + d2"
    by (simp add: b d2_def)
  have s3: "d2 = 1461 * c + d3"
    by (simp add: c d3_def)
  have s4: "d3 = 365 * e + f"
    by (simp add: f)
  show "z = 146097 * a + 36524 * b + 1461 * c + 365 * e + f"
    using s1 s2 s3 s4 by linarith
qed

lemma month_of_day:
  fixes doy :: int
  assumes "0 \<le> doy" "doy \<le> 365"
  shows "0 \<le> (5 * doy + 2) div 153" "(5 * doy + 2) div 153 \<le> 11"
    "month_start ((5 * doy + 2) div 153) \<le> doy"
proof -
  let ?mp = "(5 * doy + 2) div 153"
  show "0 \<le> ?mp" using assms by simp
  have "5 * doy + 2 < 153 * 12" using assms by simp
  then have "?mp < 12" by (simp add: div_less_iff_less_mult)
  then show "?mp \<le> 11" by simp
  have "153 * ?mp \<le> 5 * doy + 2"
    using div_mult_mod_eq [of "5 * doy + 2" 153] pos_mod_sign [of 153 "5 * doy + 2"]
    by linarith
  then have "153 * ?mp + 2 \<le> 5 * doy + 4" by simp
  then have "(153 * ?mp + 2) div 5 \<le> (5 * doy + 4) div 5"
    by (rule zdiv_mono1) simp
  also have "(5 * doy + 4) div 5 = doy" by simp
  finally show "month_start ?mp \<le> doy" by (simp add: month_start_def)
qed

lemma month_start_bounds:
  assumes "0 \<le> mp" "mp \<le> 11"
  shows "0 \<le> month_start mp" "month_start mp \<le> 337"
    "(5 * month_start mp + 2) div 153 = mp"
proof -
  show "0 \<le> month_start mp" using assms by (simp add: month_start_def)
  have "153 * mp + 2 \<le> 1685" using assms by simp
  then have "(153 * mp + 2) div 5 \<le> 1685 div 5"
    by (rule zdiv_mono1) simp
  then show "month_start mp \<le> 337" by (simp add: month_start_def)
  let ?ms = "month_start mp"
  have lo: "5 * ?ms \<le> 153 * mp + 2"
    unfolding month_start_def
    using div_mult_mod_eq [of "153 * mp + 2" 5] pos_mod_sign [of 5 "153 * mp + 2"] by linarith
  have hi: "153 * mp + 2 < 5 * ?ms + 5"
    unfolding month_start_def
    using div_mult_mod_eq [of "153 * mp + 2" 5] pos_mod_bound [of 5 "153 * mp + 2"] by linarith
  have "5 * ?ms + 2 = 153 * mp + (5 * ?ms + 2 - 153 * mp)" by simp
  moreover have "0 \<le> 5 * ?ms + 2 - 153 * mp" using hi by linarith
  moreover have "5 * ?ms + 2 - 153 * mp < 153" using lo by linarith
  ultimately show "(5 * ?ms + 2) div 153 = mp"
    by (rule div_mod_unique(1))
qed

lemma year_digits:
  fixes a b c e :: int
  assumes "0 \<le> b" "b \<le> 3" "0 \<le> c" "c \<le> 24" "0 \<le> e" "e \<le> 3"
  shows "(400 * a + 100 * b + 4 * c + e) div 4 = 100 * a + 25 * b + c"
    "(400 * a + 100 * b + 4 * c + e) div 100 = 4 * a + b"
    "(400 * a + 100 * b + 4 * c + e) div 400 = a"
proof -
  have "400 * a + 100 * b + 4 * c + e = 4 * (100 * a + 25 * b + c) + e" by simp
  from div_mod_unique(1) [OF this] assms
  show "(400 * a + 100 * b + 4 * c + e) div 4 = 100 * a + 25 * b + c" by simp
  have "400 * a + 100 * b + 4 * c + e = 100 * (4 * a + b) + (4 * c + e)" by simp
  from div_mod_unique(1) [OF this] assms
  show "(400 * a + 100 * b + 4 * c + e) div 100 = 4 * a + b" by simp
  have "400 * a + 100 * b + 4 * c + e = 400 * a + (100 * b + 4 * c + e)" by simp
  from div_mod_unique(1) [OF this] assms
  show "(400 * a + 100 * b + 4 * c + e) div 400 = a" by simp
qed


text \<open>The parts of a day number determine its date, and the date determines the day number.\<close>

lemma civil_from_days_parts:
  assumes "cycle_parts (z0 + 719468) = (a, b, c, e, f)"
  shows "civil_from_days z0 =
           (let y = 400 * a + 100 * b + 4 * c + e;
                mp = (5 * f + 2) div 153;
                m = (if mp < 10 then mp + 3 else mp - 9)
            in (if m \<le> 2 then y + 1 else y, m, f - month_start mp + 1))"
  by (simp add: civil_from_days_def assms Let_def)

lemma days_from_civil_parts:
  assumes "0 \<le> b" "b \<le> 3" "0 \<le> c" "c \<le> 24" "0 \<le> e" "e \<le> 3"
    and "0 \<le> mp" "mp \<le> 11"
  shows "days_from_civil
           (if (if mp < 10 then mp + 3 else mp - 9) \<le> 2
            then 400 * a + 100 * b + 4 * c + e + 1 else 400 * a + 100 * b + 4 * c + e)
           (if mp < 10 then mp + 3 else mp - 9) d
         = 146097 * a + 36524 * b + 1461 * c + 365 * e + month_start mp + d - 1 - 719468"
proof -
  let ?y = "400 * a + 100 * b + 4 * c + e"
  let ?m = "if mp < 10 then mp + 3 else mp - 9"
  have back_y: "(if ?m \<le> 2 then (if ?m \<le> 2 then ?y + 1 else ?y) - 1
                 else (if ?m \<le> 2 then ?y + 1 else ?y)) = ?y"
    by simp
  have back_m: "(if ?m > 2 then ?m - 3 else ?m + 9) = mp"
    using assms(7,8) by simp
  have "days_from_civil (if ?m \<le> 2 then ?y + 1 else ?y) ?m d
          = 365 * ?y + ?y div 4 - ?y div 100 + ?y div 400 + (month_start mp + d - 1) - 719468"
    unfolding days_from_civil_def Let_def back_y back_m ..
  also have "\<dots> = 146097 * a + 36524 * b + 1461 * c + 365 * e + month_start mp + d - 1 - 719468"
    unfolding year_digits [OF assms(1-6)] by simp
  finally show ?thesis .
qed

lemma days_from_civil_inverse:
  assumes "civil_from_days z0 = (y, m, d)"
  shows "days_from_civil y m d = z0" and "1 \<le> d" and "1 \<le> m \<and> m \<le> 12"
proof -
  obtain a b c e f where parts: "cycle_parts (z0 + 719468) = (a, b, c, e, f)"
    by (metis prod_cases5)
  note sum = cycle_parts_sum [OF parts]
  define mp where "mp = (5 * f + 2) div 153"
  have mp: "0 \<le> mp" "mp \<le> 11" and ms: "month_start mp \<le> f"
    using month_of_day [of f] sum(5) by (simp_all add: mp_def)
  have civ: "civil_from_days z0
               = (if (if mp < 10 then mp + 3 else mp - 9) \<le> 2
                  then 400 * a + 100 * b + 4 * c + e + 1 else 400 * a + 100 * b + 4 * c + e,
                  if mp < 10 then mp + 3 else mp - 9, f - month_start mp + 1)"
    unfolding civil_from_days_parts [OF parts] Let_def mp_def ..
  from assms [symmetric] civ
  have eq: "(y, m, d)
              = (if (if mp < 10 then mp + 3 else mp - 9) \<le> 2
                 then 400 * a + 100 * b + 4 * c + e + 1 else 400 * a + 100 * b + 4 * c + e,
                 if mp < 10 then mp + 3 else mp - 9, f - month_start mp + 1)"
    by (rule trans)
  have y: "y = (if (if mp < 10 then mp + 3 else mp - 9) \<le> 2
                  then 400 * a + 100 * b + 4 * c + e + 1 else 400 * a + 100 * b + 4 * c + e)"
    and m: "m = (if mp < 10 then mp + 3 else mp - 9)" and d: "d = f - month_start mp + 1"
    using eq by (simp_all only: prod.inject)
  show "1 \<le> d" using ms d by simp
  show "1 \<le> m \<and> m \<le> 12" using mp m by simp
  have "days_from_civil y m d
          = 146097 * a + 36524 * b + 1461 * c + 365 * e + month_start mp + d - 1 - 719468"
    unfolding y m using sum(2,3,4) mp by (intro days_from_civil_parts) simp_all
  also have "\<dots> = z0"
    using sum(1) d by simp
  finally show "days_from_civil y m d = z0" .
qed

lemma first_of_month:
  assumes "civil_from_days z0 = (y, m, d)"
  shows "civil_from_days (days_from_civil y m 1) = (y, m, 1)"
    and "days_from_civil y m 1 = z0 - (d - 1)"
proof -
  obtain a b c e f where parts: "cycle_parts (z0 + 719468) = (a, b, c, e, f)"
    by (metis prod_cases5)
  note sum = cycle_parts_sum [OF parts]
  define mp where "mp = (5 * f + 2) div 153"
  have mp: "0 \<le> mp" "mp \<le> 11" and ms: "month_start mp \<le> f"
    using month_of_day [of f] sum(5) by (simp_all add: mp_def)
  note msb = month_start_bounds [OF mp]
  have civ: "civil_from_days z0
               = (if (if mp < 10 then mp + 3 else mp - 9) \<le> 2
                  then 400 * a + 100 * b + 4 * c + e + 1 else 400 * a + 100 * b + 4 * c + e,
                  if mp < 10 then mp + 3 else mp - 9, f - month_start mp + 1)"
    unfolding civil_from_days_parts [OF parts] Let_def mp_def ..
  from assms [symmetric] civ
  have eq: "(y, m, d)
              = (if (if mp < 10 then mp + 3 else mp - 9) \<le> 2
                 then 400 * a + 100 * b + 4 * c + e + 1 else 400 * a + 100 * b + 4 * c + e,
                 if mp < 10 then mp + 3 else mp - 9, f - month_start mp + 1)"
    by (rule trans)
  have y: "y = (if (if mp < 10 then mp + 3 else mp - 9) \<le> 2
                  then 400 * a + 100 * b + 4 * c + e + 1 else 400 * a + 100 * b + 4 * c + e)"
    and m: "m = (if mp < 10 then mp + 3 else mp - 9)" and d: "d = f - month_start mp + 1"
    using eq by (simp_all only: prod.inject)
  have first: "days_from_civil y m 1
          = 146097 * a + 36524 * b + 1461 * c + 365 * e + month_start mp + 1 - 1 - 719468"
    unfolding y m using sum(2,3,4) mp by (intro days_from_civil_parts) simp_all
  then show "days_from_civil y m 1 = z0 - (d - 1)"
    using sum(1) d by simp
  have "days_from_civil y m 1 + 719468
          = 146097 * a + 36524 * b + 1461 * c + 365 * e + month_start mp"
    using first by simp
  then have parts1: "cycle_parts (days_from_civil y m 1 + 719468) = (a, b, c, e, month_start mp)"
    using sum(2,3,4) msb(1,2) by (intro cycle_parts_unique) simp_all
  have "civil_from_days (days_from_civil y m 1)
          = (if (if mp < 10 then mp + 3 else mp - 9) \<le> 2
             then 400 * a + 100 * b + 4 * c + e + 1 else 400 * a + 100 * b + 4 * c + e,
             if mp < 10 then mp + 3 else mp - 9, month_start mp - month_start mp + 1)"
    unfolding civil_from_days_parts [OF parts1] Let_def msb(3) ..
  then show "civil_from_days (days_from_civil y m 1) = (y, m, 1)"
    by (simp add: y m)
qed


lemma day_of_instant:
  "(24 * Hour) * (t div (24 * Hour)) \<le> t"
  "(k * (24 * Hour)) div (24 * Hour) = k"
proof -
  have pos: "0 < 24 * Hour"
    by (simp add: Hour_def Minute_def Second_def)
  show "(24 * Hour) * (t div (24 * Hour)) \<le> t"
    by (rule div_bounds(1) [OF pos])
  show "(k * (24 * Hour)) div (24 * Hour) = k"
    using pos by simp
qed

lemma first_of_month_instant:
  "time_Year (time_Date (time_Year t) (time_Month t) 1 0 0 0 0) = time_Year t"
  "time_Month (time_Date (time_Year t) (time_Month t) 1 0 0 0 0) = time_Month t"
  "time_Day (time_Date (time_Year t) (time_Month t) 1 0 0 0 0) = 1"
  "time_Date (time_Year t) (time_Month t) 1 0 0 0 0 \<le> t"
  "1 \<le> time_Month t \<and> time_Month t \<le> 12"
proof -
  define z where "z = t div (24 * Hour)"
  obtain y m d where civ: "civil_from_days z = (y, m, d)"
    by (metis prod_cases3)
  have ym: "time_Year t = y" "time_Month t = m"
    by (simp_all add: time_Year_def time_Month_def z_def [symmetric] civ)
  have start: "time_Date y m 1 0 0 0 0 = days_from_civil y m 1 * (24 * Hour)"
    by (simp add: time_Date_def)
  have day: "time_Date y m 1 0 0 0 0 div (24 * Hour) = days_from_civil y m 1"
    unfolding start by (rule day_of_instant(2))
  note fom = first_of_month [OF civ]
  show "time_Year (time_Date (time_Year t) (time_Month t) 1 0 0 0 0) = time_Year t"
    unfolding ym by (simp add: time_Year_def day fom(1))
  show "time_Month (time_Date (time_Year t) (time_Month t) 1 0 0 0 0) = time_Month t"
    unfolding ym by (simp add: time_Month_def day fom(1))
  show "time_Day (time_Date (time_Year t) (time_Month t) 1 0 0 0 0) = 1"
    unfolding ym by (simp add: time_Day_def day fom(1))
  show "1 \<le> time_Month t \<and> time_Month t \<le> 12"
    unfolding ym by (rule days_from_civil_inverse(3) [OF civ])
  have d: "1 \<le> d"
    by (rule days_from_civil_inverse(2) [OF civ])
  have pos: "0 \<le> 24 * Hour"
    by (simp add: Hour_def Minute_def Second_def)
  have "days_from_civil y m 1 \<le> z"
    using fom(2) d by simp
  then have "days_from_civil y m 1 * (24 * Hour) \<le> z * (24 * Hour)"
    using pos by (rule mult_right_mono)
  also have "z * (24 * Hour) \<le> t"
    using day_of_instant(1) [of t] by (simp add: z_def mult.commute)
  finally show "time_Date (time_Year t) (time_Month t) 1 0 0 0 0 \<le> t"
    unfolding ym start .
qed

subsection \<open>The month window\<close>

lemma PerMonth_example:
  "Window_BucketKey PerMonth test_now_1 = ''2024-01''"
  "Window_BucketStart PerMonth test_now_1 = time_Date 2024 1 1 0 0 0 0"
  "time_Add (Window_BucketStart PerMonth test_now_1) (Window_Duration PerMonth)
     = time_Date 2024 1 31 0 0 0 0"
  "time_Date 2024 1 31 0 0 0 0 \<noteq> time_Date 2024 2 1 0 0 0 0"
  by code_simp+

lemma time_Date_midnight:
  "time_Hour (time_Date y m d 0 0 0 0) = 0"
  "time_Minute (time_Date y m d 0 0 0 0) = 0"
  "time_Date y m d 0 0 0 0 mod Minute = 0"
proof -
  have day: "time_Date y m d 0 0 0 0 = days_from_civil y m d * (24 * Hour)"
    by (simp add: time_Date_def)
  have "time_Date y m d 0 0 0 0 mod (24 * Hour) = 0"
    by (simp add: day)
  then show "time_Hour (time_Date y m d 0 0 0 0) = 0"
    by (simp add: time_Hour_def)
  have "time_Date y m d 0 0 0 0 = (days_from_civil y m d * 24) * Hour"
    by (simp add: day)
  then have hour: "time_Date y m d 0 0 0 0 mod Hour = 0"
    by simp
  then show "time_Minute (time_Date y m d 0 0 0 0) = 0"
    by (simp add: time_Minute_def)
  have "time_Date y m d 0 0 0 0 = (days_from_civil y m d * 24 * 60) * Minute"
    by (simp add: day Hour_def)
  then show "time_Date y m d 0 0 0 0 mod Minute = 0"
    by simp
qed

text \<open>
  C8. For every instant \<open>t\<close> the \<open>PerMonth\<close> window lasts 30 times 24 hours, its bucket
  key is the year and month of \<open>t\<close> in UTC (four and two digits), and its bucket start
  is day 1 of that year and month at 00:00:00 UTC: an instant not after \<open>t\<close>, in the
  year and month of \<open>t\<close>, on day 1, at hour 0 and minute 0 with nothing left over.
  Bucket start plus duration need not be the start of the next month: for an instant
  in January 2024 it is 31 January, not 1 February.
\<close>

theorem PerMonth_window_is_fixed_30_days:
  "Window_Duration PerMonth = 30 * 24 * Hour
   \<and> Window_Duration PerMonth = 30 * 24 * 60 * 60 * 1000000000
   \<and> Window_BucketKey PerMonth t = appendInt (time_Year t) 4 @ ''-'' @ appendInt (time_Month t) 2
   \<and> Window_BucketStart PerMonth t = time_Date (time_Year t) (time_Month t) 1 0 0 0 0
   \<and> Window_BucketStart PerMonth t \<le> t
   \<and> time_Year (Window_BucketStart PerMonth t) = time_Year t
   \<and> time_Month (Window_BucketStart PerMonth t) = time_Month t
   \<and> time_Day (Window_BucketStart PerMonth t) = 1
   \<and> time_Hour (Window_BucketStart PerMonth t) = 0
   \<and> time_Minute (Window_BucketStart PerMonth t) = 0
   \<and> Window_BucketStart PerMonth t mod Minute = 0
   \<and> Window_BucketKey PerMonth test_now_1 = ''2024-01''
   \<and> Window_BucketStart PerMonth test_now_1 = time_Date 2024 1 1 0 0 0 0
   \<and> time_Add (Window_BucketStart PerMonth test_now_1) (Window_Duration PerMonth)
       = time_Date 2024 1 31 0 0 0 0
   \<and> time_Date 2024 1 31 0 0 0 0 \<noteq> time_Date 2024 2 1 0 0 0 0"
proof -
  have dur: "Window_Duration PerMonth = 30 * 24 * Hour"
    by (simp add: Window_Duration_def PerMonth_def PerMinute_def PerHour_def PerDay_def)
  have ns: "Window_Duration PerMonth = 30 * 24 * 60 * 60 * 1000000000"
    by (simp add: dur Hour_def Minute_def Second_def)
  have key: "Window_BucketKey PerMonth t
               = appendInt (time_Year t) 4 @ ''-'' @ appendInt (time_Month t) 2"
    by (simp add: Window_BucketKey_def Format_month_def PerMonth_def PerMinute_def PerHour_def
          PerDay_def)
  have start: "Window_BucketStart PerMonth t = time_Date (time_Year t) (time_Month t) 1 0 0 0 0"
    by (simp add: Window_BucketStart_def PerMonth_def PerMinute_def PerHour_def PerDay_def)
  have first: "Window_BucketStart PerMonth t \<le> t"
    "time_Year (Window_BucketStart PerMonth t) = time_Year t"
    "time_Month (Window_BucketStart PerMonth t) = time_Month t"
    "time_Day (Window_BucketStart PerMonth t) = 1"
    by (simp_all only: start first_of_month_instant)
  have midnight: "time_Hour (Window_BucketStart PerMonth t) = 0"
    "time_Minute (Window_BucketStart PerMonth t) = 0"
    "Window_BucketStart PerMonth t mod Minute = 0"
    by (simp_all only: start time_Date_midnight)
  from dur ns key start first midnight PerMonth_example show ?thesis
    by (intro conjI)
qed

end
